theory Spec2Isabelle
  imports Complex_Main
begin

section \<open>Values, errors and the collaborators of the generators\<close>

text \<open>
  JavaScript numbers are modelled as real numbers: the inputs are finite numbers and the
  arithmetic is exact. A value that may or may not be an array (\<open>center\<close>, and the
  \<open>radius\<close> of the ellipsoid) is a \<open>jsvalue\<close>, so that \<open>Array.isArray\<close> is a
  test of the model. \<open>segments\<close> is an integer, as the data model says.
\<close>

datatype jsvalue = Number real | Array "real list"

text \<open>
  The generators throw \<open>new Error(message)\<close>; polygon construction fails with one of the
  two polygon errors of the error taxonomy.
\<close>

datatype error = Error string | InvalidPolygon | DegeneratePolygon

definition bind :: "error + 'a \<Rightarrow> ('a \<Rightarrow> error + 'b) \<Rightarrow> error + 'b" where
  "bind m f = (case m of Inl e \<Rightarrow> Inl e | Inr x \<Rightarrow> f x)"

text \<open>\<open>Object.assign({}, defaults, options)\<close>, field by field: a field that the caller
  did not supply takes its default.\<close>

definition assign :: "'a \<Rightarrow> 'a option \<Rightarrow> 'a" where
  "assign dflt supplied = (case supplied of None \<Rightarrow> dflt | Some v \<Rightarrow> v)"

text \<open>The remainder operator \<open>%\<close> of JavaScript: the quotient is truncated towards zero.\<close>

definition js_mod :: "real \<Rightarrow> real \<Rightarrow> real" where
  "js_mod a b = a - b * of_int (if a / b < 0 then \<lceil>a / b\<rceil> else \<lfloor>a / b\<rfloor>)"

text \<open>\<open>Math.acos\<close> is NaN outside of \<open>[-1, 1]\<close> (\<open>None\<close> here), and a comparison
  with NaN is false.\<close>

definition Math_acos :: "real \<Rightarrow> real option" where
  "Math_acos x = (if -1 \<le> x \<and> x \<le> 1 then Some (arccos x) else None)"

definition less_number :: "real \<Rightarrow> real option \<Rightarrow> bool" where
  "less_number x y = (case y of None \<Rightarrow> False | Some v \<Rightarrow> x < v)"

subsection \<open>Vector3 algebra\<close>

text \<open>
  The module \<open>math/vec3\<close> is not among the sources; its operations are modelled from
  section 4.1 of the description, on triples of reals.
\<close>

type_synonym vec3 = "real \<times> real \<times> real"

text \<open>Modelled from the spec: \<open>vec3.fromValues\<close>, the vector of three components.\<close>

definition vec3_fromValues :: "real \<Rightarrow> real \<Rightarrow> real \<Rightarrow> vec3" where
  "vec3_fromValues x y z = (x, y, z)"

text \<open>Modelled from the spec: an array of at least three numbers read as a vector, as
  \<open>vec3.add\<close> does with the center. The generators check the length before.\<close>

definition vec3_fromArray :: "real list \<Rightarrow> vec3" where
  "vec3_fromArray a = (a ! 0, a ! 1, a ! 2)"

text \<open>Modelled from the spec: \<open>vec3.add\<close>.\<close>

fun vec3_add :: "vec3 \<Rightarrow> vec3 \<Rightarrow> vec3" where
  "vec3_add (a1, a2, a3) (b1, b2, b3) = (a1 + b1, a2 + b2, a3 + b3)"

text \<open>Modelled from the spec: \<open>vec3.subtract\<close>.\<close>

fun vec3_subtract :: "vec3 \<Rightarrow> vec3 \<Rightarrow> vec3" where
  "vec3_subtract (a1, a2, a3) (b1, b2, b3) = (a1 - b1, a2 - b2, a3 - b3)"

text \<open>Modelled from the spec: \<open>vec3.scale(scalar, v)\<close>.\<close>

fun vec3_scale :: "real \<Rightarrow> vec3 \<Rightarrow> vec3" where
  "vec3_scale s (a1, a2, a3) = (s * a1, s * a2, s * a3)"

text \<open>Modelled from the spec: \<open>vec3.dot\<close>.\<close>

fun vec3_dot :: "vec3 \<Rightarrow> vec3 \<Rightarrow> real" where
  "vec3_dot (a1, a2, a3) (b1, b2, b3) = a1 * b1 + a2 * b2 + a3 * b3"

text \<open>Modelled from the spec: \<open>vec3.cross\<close>.\<close>

fun vec3_cross :: "vec3 \<Rightarrow> vec3 \<Rightarrow> vec3" where
  "vec3_cross (a1, a2, a3) (b1, b2, b3) =
     (a2 * b3 - a3 * b2, a3 * b1 - a1 * b3, a1 * b2 - a2 * b1)"

text \<open>Modelled from the spec: \<open>vec3.length\<close>.\<close>

definition vec3_length :: "vec3 \<Rightarrow> real" where
  "vec3_length v = sqrt (vec3_dot v v)"

text \<open>Modelled from the spec: \<open>vec3.unit\<close>, the normalized vector. The description
  leaves it undefined on a zero-length vector, where JavaScript divides by zero; the
  division below gives the zero vector there. The theorems below hold whatever that
  value is; the vertices they give are those of the program when no axis is zero.\<close>

definition vec3_unit :: "vec3 \<Rightarrow> vec3" where
  "vec3_unit v = vec3_scale (1 / vec3_length v) v"

text \<open>Modelled from the spec: \<open>vec3.random\<close>, the seed vector not parallel to a given
  one. The design notes make it a fixed fallback: the global X axis, else the Y axis when
  the argument is parallel to X.\<close>

definition vec3_random :: "vec3 \<Rightarrow> vec3" where
  "vec3_random v =
     (if vec3_cross (1, 0, 0) v = (0, 0, 0) then (0, 1, 0) else (1, 0, 0))"

subsection \<open>Polygons and solid meshes\<close>

text \<open>
  The modules \<open>geometry/poly3\<close> and \<open>geometry/geom3\<close> are not among the sources
  either; they are modelled from sections 3, 4.2 and 4.3 of the description.
\<close>

text \<open>Modelled from the spec: the polygon, its ordered vertices and the plane derived
  from them, a unit normal and an offset.\<close>

record poly3 =
  vertices :: "vec3 list"
  plane :: "vec3 \<times> real"

text \<open>Modelled from the spec: the plane of a polygon, from the first triple of
  consecutive vertices whose two edges have a cross product longer than the tolerance;
  the normal is the normalized cross product and the offset its product with a vertex.
  There is no plane when every triple is collinear within the tolerance.\<close>

fun plane_fromPoints :: "real \<Rightarrow> vec3 list \<Rightarrow> (vec3 \<times> real) option" where
  "plane_fromPoints EPS (a # b # c # ps) =
     (let n = vec3_cross (vec3_subtract b a) (vec3_subtract c b)
      in if vec3_length n \<le> EPS then plane_fromPoints EPS (b # c # ps)
         else Some (vec3_unit n, vec3_dot (vec3_unit n) a))"
| "plane_fromPoints EPS ps = None"

text \<open>Modelled from the spec: \<open>poly3.fromPoints\<close>. It fails with \<open>InvalidPolygon\<close> on
  fewer than three points and with \<open>DegeneratePolygon\<close> when no plane can be derived;
  the vertices of the polygon are the points, in their order.\<close>

definition poly3_fromPoints :: "real \<Rightarrow> vec3 list \<Rightarrow> error + poly3" where
  "poly3_fromPoints EPS points =
     (if length points < 3 then Inl InvalidPolygon
      else case plane_fromPoints EPS points of
             None \<Rightarrow> Inl DegeneratePolygon
           | Some pl \<Rightarrow> Inr \<lparr>vertices = points, plane = pl\<rparr>)"

text \<open>Modelled from the spec: the solid mesh, an ordered sequence of polygons.\<close>

record geom3 =
  polygons :: "poly3 list"

text \<open>Modelled from the spec: \<open>geom3.create\<close>, which wraps the polygons and checks
  nothing.\<close>

definition geom3_create :: "poly3 list \<Rightarrow> geom3" where
  "geom3_create ps = \<lparr>polygons = ps\<rparr>"

text \<open>\<open>polygons.push(p)\<close> where computing \<open>p\<close> may throw.\<close>

definition push :: "poly3 list \<Rightarrow> error + poly3 \<Rightarrow> error + poly3 list" where
  "push polygons' p = bind p (\<lambda>q. Inr (polygons' @ [q]))"

section \<open>The elliptic cylinder (src/primitives/cylinderElliptic.js)\<close>

record common_options =
  center :: "jsvalue option"
  segments :: "int option"

record 'r cylinder_options = common_options +
  height :: "real option"
  startRadius :: "'r option"
  startAngle :: "real option"
  endRadius :: "'r option"
  endAngle :: "real option"

text \<open>Lines 52-58: the sweep between the two angles, both already reduced modulo
  \<open>2 * pi\<close>.\<close>

definition rotation_of :: "real \<Rightarrow> real \<Rightarrow> real" where
  "rotation_of startAngle' endAngle' =
     (let startAngle = startAngle'; endAngle = endAngle';
          rotation = pi * 2;
          rotation = (if startAngle < endAngle then endAngle - startAngle else rotation);
          rotation = (if startAngle > endAngle then endAngle + ((pi * 2) - startAngle)
                      else rotation)
      in rotation)"

text \<open>Lines 60-63: the smallest radius component and the angle it gives with the
  tolerance.\<close>

definition minangle_of :: "real \<Rightarrow> real \<times> real \<Rightarrow> real \<times> real \<Rightarrow> real option" where
  "minangle_of EPS startRadius' endRadius' =
     (let startRadius = startRadius'; endRadius = endRadius';
          minradius = min (min (min (fst startRadius) (snd startRadius)) (fst endRadius))
                          (snd endRadius)
      in Math_acos (((minradius * minradius) + (minradius * minradius) - (EPS * EPS)) /
                    (2 * minradius * minradius)))"

text \<open>Line 65.\<close>

definition slices_of :: "int \<Rightarrow> real \<Rightarrow> nat" where
  "slices_of segments' rotation = nat \<lfloor>of_int segments' * (rotation / (pi * 2))\<rfloor>"

text \<open>The variables that the closures \<open>point\<close> and \<open>fromPoints\<close> and the two loops
  read (lines 67-73 and the validated options).\<close>

record scope =
  sc_EPS :: real
  sc_center :: "real list"
  sc_startRadius :: "real \<times> real"
  sc_endRadius :: "real \<times> real"
  sc_startAngle :: real
  sc_rotation :: real
  sc_start :: vec3
  sc_end :: vec3
  sc_ray :: vec3
  sc_axisX :: vec3
  sc_axisY :: vec3

definition point :: "scope \<Rightarrow> real \<Rightarrow> real \<Rightarrow> real \<times> real \<Rightarrow> vec3" where
  "point sc stack slice radius =
     (let angle = slice * sc_rotation sc + sc_startAngle sc;
          out = vec3_add (vec3_scale (fst radius * cos angle) (sc_axisX sc))
                         (vec3_scale (snd radius * sin angle) (sc_axisY sc));
          pos = vec3_add (vec3_add (vec3_scale stack (sc_ray sc)) (sc_start sc)) out
      in pos)"

definition fromPoints :: "scope \<Rightarrow> vec3 list \<Rightarrow> error + poly3" where
  "fromPoints sc points =
     (let newpoints = map (\<lambda>point. vec3_add point (vec3_fromArray (sc_center sc))) points
      in poly3_fromPoints (sc_EPS sc) newpoints)"

text \<open>Lines 90-106: the body of the loop over the slices.\<close>

definition slice_body :: "scope \<Rightarrow> nat \<Rightarrow> nat \<Rightarrow> poly3 list \<Rightarrow> error + poly3 list" where
  "slice_body sc slices i polygons' =
     (let polygons = polygons'; start = sc_start sc; end' = sc_end sc;
          startRadius = sc_startRadius sc; endRadius = sc_endRadius sc;
          t0 = real i / real slices;
          t1 = (real i + 1) / real slices
      in if fst endRadius = fst startRadius \<and> snd endRadius = snd startRadius then
           bind (push polygons (fromPoints sc
                   [start, point sc 0 t0 endRadius, point sc 0 t1 endRadius])) (\<lambda>polygons.
           bind (push polygons (fromPoints sc
                   [point sc 0 t1 endRadius, point sc 0 t0 endRadius,
                    point sc 1 t0 endRadius, point sc 1 t1 endRadius])) (\<lambda>polygons.
           push polygons (fromPoints sc
                   [end', point sc 1 t1 endRadius, point sc 1 t0 endRadius])))
         else
           bind (if fst startRadius > 0 then
                   bind (push polygons (fromPoints sc
                     [start, point sc 0 t0 startRadius, point sc 0 t1 startRadius]))
                     (\<lambda>polygons.
                   push polygons (fromPoints sc
                     [point sc 0 t0 startRadius, point sc 1 t0 endRadius,
                      point sc 0 t1 startRadius]))
                 else Inr polygons) (\<lambda>polygons.
           if fst endRadius > 0 then
             bind (push polygons (fromPoints sc
               [end', point sc 1 t1 endRadius, point sc 1 t0 endRadius])) (\<lambda>polygons.
             push polygons (fromPoints sc
               [point sc 1 t0 endRadius, point sc 1 t1 endRadius,
                point sc 0 t1 startRadius]))
           else Inr polygons))"

text \<open>Line 89: \<open>for (let i = 0; i < slices; i++)\<close>.\<close>

function slice_loop :: "scope \<Rightarrow> nat \<Rightarrow> nat \<Rightarrow> poly3 list \<Rightarrow> error + poly3 list" where
  "slice_loop sc slices i polygons' =
     (if i < slices then
        bind (slice_body sc slices i polygons')
          (\<lambda>polygons. slice_loop sc slices (i + 1) polygons)
      else Inr polygons')"
  by pat_completeness auto
termination
  by (relation "measure (\<lambda>(sc, slices, i, ps). slices - i)") auto

declare slice_loop.simps [simp del]

text \<open>Lines 108-113: the four polygons that close a partial sweep.\<close>

definition end_walls :: "scope \<Rightarrow> poly3 list \<Rightarrow> error + poly3 list" where
  "end_walls sc polygons' =
     (let polygons = polygons'; start = sc_start sc; end' = sc_end sc;
          startRadius = sc_startRadius sc; endRadius = sc_endRadius sc
      in bind (push polygons (fromPoints sc [start, end', point sc 0 0 startRadius]))
           (\<lambda>polygons.
         bind (push polygons (fromPoints sc
                 [point sc 0 0 startRadius, end', point sc 1 0 endRadius])) (\<lambda>polygons.
         bind (push polygons (fromPoints sc [start, point sc 0 1 startRadius, end']))
           (\<lambda>polygons.
         push polygons (fromPoints sc
                 [point sc 0 1 startRadius, point sc 1 1 endRadius, end'])))))"

text \<open>Lines 67-73 with the validated options: the scope of the closures.\<close>

definition make_scope ::
  "real \<Rightarrow> real list \<Rightarrow> real \<Rightarrow> real \<times> real \<Rightarrow> real \<times> real \<Rightarrow> real \<Rightarrow> real \<Rightarrow> scope" where
  "make_scope EPS center' height' startRadius' endRadius' startAngle' rotation =
     (let center = center'; height = height'; startRadius = startRadius';
          endRadius = endRadius'; startAngle = startAngle';
          start = vec3_fromValues 0 0 (- (height / 2));
          end' = vec3_fromValues 0 0 (height / 2);
          ray = vec3_subtract end' start;
          axisZ = vec3_unit ray;
          axisX = vec3_unit (vec3_random axisZ);
          axisY = vec3_unit (vec3_cross axisX axisZ)
      in \<lparr>sc_EPS = EPS, sc_center = center, sc_startRadius = startRadius,
          sc_endRadius = endRadius, sc_startAngle = startAngle, sc_rotation = rotation,
          sc_start = start, sc_end = end', sc_ray = ray, sc_axisX = axisX,
          sc_axisY = axisY\<rparr>)"

text \<open>Lines 25-116. \<open>EPS\<close> is the tolerance constant of \<open>math/constants\<close>, taken as a
  parameter.\<close>

definition cylinderElliptic :: "real \<Rightarrow> (real \<times> real) cylinder_options \<Rightarrow> error + geom3" where
  "cylinderElliptic EPS options =
     (let center = assign (Array [0, 0, 0]) (center options);
          height = assign 2 (height options);
          startRadius = assign (1, 1) (startRadius options);
          startAngle = assign 0 (startAngle options);
          endRadius = assign (1, 1) (endRadius options);
          endAngle = assign (pi * 2) (endAngle options);
          segments = assign 12 (segments options)
      in case center of
           Number x \<Rightarrow> Inl (Error ''center must be an array'')
         | Array xyz \<Rightarrow>
      let center = xyz in
      if length center < 3 then Inl (Error ''center must contain X, Y and Z values'')
      else if height < EPS * 2 then Inl (Error ''height must be larger then zero'')
      else if fst endRadius \<le> 0 \<or> fst startRadius \<le> 0 \<or> snd endRadius \<le> 0
                \<or> snd startRadius \<le> 0
        then Inl (Error ''endRadus and startRadius should be positive'')
      else if startAngle < 0 \<or> endAngle < 0
        then Inl (Error ''startAngle and endAngle must be positive'')
      else if segments < 4 then Inl (Error ''segments must be four or more'')
      else
        let startAngle = js_mod startAngle (pi * 2);
            endAngle = js_mod endAngle (pi * 2);
            rotation = rotation_of startAngle endAngle
        in if less_number rotation (minangle_of EPS startRadius endRadius)
           then Inl (Error ''startAngle and endAngle to not define a significant rotation'')
           else
             let slices = slices_of segments rotation;
                 sc = make_scope EPS center height startRadius endRadius startAngle rotation
             in bind (slice_loop sc slices 0 []) (\<lambda>polygons.
                bind (if rotation < pi * 2 then end_walls sc polygons else Inr polygons)
                  (\<lambda>polygons.
                Inr (geom3_create polygons))))"

text \<open>Lines 137-160: the cylinder with scalar radii.\<close>

definition cylinder :: "real \<Rightarrow> real cylinder_options \<Rightarrow> error + geom3" where
  "cylinder EPS options =
     (let center = assign (Array [0, 0, 0]) (center options);
          height = assign 2 (height options);
          startRadius = assign 1 (startRadius options);
          startAngle = assign 0 (startAngle options);
          endRadius = assign 1 (endRadius options);
          endAngle = assign (pi * 2) (endAngle options);
          segments = assign 12 (segments options);
          newoptions = \<lparr>center = Some center, segments = Some segments,
            height = Some height, startRadius = Some (startRadius, startRadius),
            startAngle = Some startAngle, endRadius = Some (endRadius, endRadius),
            endAngle = Some endAngle\<rparr>
      in cylinderElliptic EPS newoptions)"

section \<open>The ellipsoid and the sphere (the second unnamed source file)\<close>

record 'r ellipsoid_options = common_options +
  radius :: "'r option"
  axes :: "(vec3 \<times> vec3 \<times> vec3) option"

text \<open>The variables that the two loops read (lines 24-38).\<close>

record escope =
  es_EPS :: real
  es_center :: "real list"
  es_segments :: int
  es_qsegments :: int
  es_xvector :: vec3
  es_yvector :: vec3
  es_zvector :: vec3

text \<open>Lines 51-79: the two polygons of one cell. The first is on the side of
  \<open>- zvector\<close>, the second on the side of \<open>+ zvector\<close> and reversed.\<close>

definition cell_polygons ::
  "escope \<Rightarrow> vec3 \<Rightarrow> vec3 \<Rightarrow> nat \<Rightarrow> real \<Rightarrow> real \<Rightarrow> real \<Rightarrow> real \<Rightarrow> poly3 list
    \<Rightarrow> error + poly3 list" where
  "cell_polygons es prevcylinderpoint cylinderpoint slice2 prevcospitch prevsinpitch
       cospitch sinpitch polygons' =
     (let polygons = polygons';
          center = vec3_fromArray (es_center es);
          zvector = es_zvector es;
          qsegments = es_qsegments es;
          points = [];
          point = vec3_subtract (vec3_scale prevcospitch prevcylinderpoint)
                                (vec3_scale prevsinpitch zvector);
          points = points @ [vec3_add center point];
          point = vec3_subtract (vec3_scale prevcospitch cylinderpoint)
                                (vec3_scale prevsinpitch zvector);
          points = points @ [vec3_add center point];
          points = (if int slice2 < qsegments then
                      let point = vec3_subtract (vec3_scale cospitch cylinderpoint)
                                                (vec3_scale sinpitch zvector)
                      in points @ [vec3_add center point]
                    else points);
          point = vec3_subtract (vec3_scale cospitch prevcylinderpoint)
                                (vec3_scale sinpitch zvector);
          points = points @ [vec3_add center point]
      in bind (push polygons (poly3_fromPoints (es_EPS es) points)) (\<lambda>polygons.
         let points = [];
             point = vec3_add (vec3_scale prevcospitch prevcylinderpoint)
                              (vec3_scale prevsinpitch zvector);
             points = points @ [vec3_add center point];
             point = vec3_add (vec3_scale prevcospitch cylinderpoint)
                              (vec3_scale prevsinpitch zvector);
             points = points @ [vec3_add center point];
             points = (if int slice2 < qsegments then
                         let point = vec3_add (vec3_scale cospitch cylinderpoint)
                                              (vec3_scale sinpitch zvector)
                         in points @ [vec3_add center point]
                       else points);
             point = vec3_add (vec3_scale cospitch prevcylinderpoint)
                              (vec3_scale sinpitch zvector);
             points = points @ [vec3_add center point];
             points = rev points
         in push polygons (poly3_fromPoints (es_EPS es) points)))"

text \<open>Lines 46-83: \<open>for (let slice2 = 0; slice2 <= qsegments; slice2++)\<close>, with the
  cosine and sine of the previous pitch passed on. They are unset before the first
  iteration, which does not read them.\<close>

function pitch_loop ::
  "escope \<Rightarrow> vec3 \<Rightarrow> vec3 \<Rightarrow> nat \<Rightarrow> real \<Rightarrow> real \<Rightarrow> poly3 list \<Rightarrow> error + poly3 list" where
  "pitch_loop es prevcylinderpoint cylinderpoint slice2 prevcospitch prevsinpitch polygons' =
     (if int slice2 \<le> es_qsegments es then
        let pitch = 0.5 * pi * real slice2 / real_of_int (es_qsegments es);
            cospitch = cos pitch;
            sinpitch = sin pitch
        in bind (if slice2 > 0 then
                   cell_polygons es prevcylinderpoint cylinderpoint slice2
                     prevcospitch prevsinpitch cospitch sinpitch polygons'
                 else Inr polygons') (\<lambda>polygons.
           pitch_loop es prevcylinderpoint cylinderpoint (slice2 + 1) cospitch sinpitch
             polygons)
      else Inr polygons')"
  by pat_completeness auto
termination
  by (relation "measure (\<lambda>(es, p, c, slice2, pc, ps, polys). nat (es_qsegments es + 1 - int slice2))")
     auto

declare pitch_loop.simps [simp del]

text \<open>Lines 41-86: \<open>for (let slice1 = 0; slice1 <= segments; slice1++)\<close>, with the
  previous equatorial point passed on (unset, and not read, in the first iteration).\<close>

function longitude_loop ::
  "escope \<Rightarrow> nat \<Rightarrow> vec3 \<Rightarrow> poly3 list \<Rightarrow> error + poly3 list" where
  "longitude_loop es slice1 prevcylinderpoint polygons' =
     (if int slice1 \<le> es_segments es then
        let angle = pi * 2.0 * real slice1 / real_of_int (es_segments es);
            cylinderpoint = vec3_add (vec3_scale (cos angle) (es_xvector es))
                                     (vec3_scale (sin angle) (es_yvector es))
        in bind (if slice1 > 0 then
                   pitch_loop es prevcylinderpoint cylinderpoint 0 0 0 polygons'
                 else Inr polygons') (\<lambda>polygons.
           longitude_loop es (slice1 + 1) cylinderpoint polygons)
      else Inr polygons')"
  by pat_completeness auto
termination
  by (relation "measure (\<lambda>(es, slice1, p, polys). nat (es_segments es + 1 - int slice1))")
     auto

declare longitude_loop.simps [simp del]

text \<open>Lines 17-88. \<open>Math.round\<close> rounds half up.\<close>

definition Math_round :: "real \<Rightarrow> int" where
  "Math_round x = \<lfloor>x + 1 / 2\<rfloor>"

definition ellipsoid :: "real \<Rightarrow> jsvalue ellipsoid_options \<Rightarrow> error + geom3" where
  "ellipsoid EPS options =
     (let center = assign (Array [0, 0, 0]) (center options);
          radius = assign (Array [1, 1, 1]) (radius options);
          segments = assign 12 (segments options);
          axes = assign ((1, 0, 0), (0, -1, 0), (0, 0, 1)) (axes options)
      in case center of
           Number x \<Rightarrow> Inl (Error ''center must be an array'')
         | Array xyz \<Rightarrow>
      let center = xyz in
      if length center < 3 then Inl (Error ''center must contain X, Y and Z values'')
      else (case radius of
           Number x \<Rightarrow> Inl (Error ''radius must be an array'')
         | Array rs \<Rightarrow>
      let radius = rs in
      if length radius < 3 then Inl (Error ''radius must contain X, Y and Z values'')
      else if segments < 4 then Inl (Error ''segments must be four or more'')
      else
        let xvector = vec3_scale (radius ! 0) (vec3_unit (fst axes));
            yvector = vec3_scale (radius ! 1) (vec3_unit (fst (snd axes)));
            zvector = vec3_scale (radius ! 2) (vec3_unit (snd (snd axes)));
            qsegments = Math_round (of_int segments / 4);
            es = \<lparr>es_EPS = EPS, es_center = center, es_segments = segments,
                  es_qsegments = qsegments, es_xvector = xvector, es_yvector = yvector,
                  es_zvector = zvector\<rparr>
        in bind (longitude_loop es 0 (0, 0, 0) []) (\<lambda>polygons.
           Inr (geom3_create polygons))))"

text \<open>Lines 100-114.\<close>

definition sphere :: "real \<Rightarrow> real ellipsoid_options \<Rightarrow> error + geom3" where
  "sphere EPS options =
     (let center = assign (Array [0, 0, 0]) (center options);
          radius = assign 1 (radius options);
          segments = assign 12 (segments options);
          axes = assign ((1, 0, 0), (0, -1, 0), (0, 0, 1)) (axes options);
          radius = Array [radius, radius, radius]
      in ellipsoid EPS \<lparr>center = Some center, segments = Some segments,
           radius = Some radius, axes = Some axes\<rparr>)"

section \<open>Notions used to state the properties\<close>


text \<open>The per-field validations of the elliptic cylinder (lines 37-47), and the values
  that lines 49-73 compute from a configuration.\<close>

definition center_array :: "'a common_options_scheme \<Rightarrow> real list option" where
  "center_array options =
     (case assign (Array [0, 0, 0]) (center options) of
        Number x \<Rightarrow> None | Array xyz \<Rightarrow> Some xyz)"

definition center_valid :: "'a common_options_scheme \<Rightarrow> bool" where
  "center_valid options =
     (case center_array options of None \<Rightarrow> False | Some xyz \<Rightarrow> 3 \<le> length xyz)"

definition fields_valid :: "real \<Rightarrow> (real \<times> real) cylinder_options \<Rightarrow> bool" where
  "fields_valid EPS options =
     (center_valid options
      \<and> EPS * 2 \<le> assign 2 (height options)
      \<and> 0 < fst (assign (1, 1) (endRadius options))
      \<and> 0 < fst (assign (1, 1) (startRadius options))
      \<and> 0 < snd (assign (1, 1) (endRadius options))
      \<and> 0 < snd (assign (1, 1) (startRadius options))
      \<and> 0 \<le> assign 0 (startAngle options)
      \<and> 0 \<le> assign (pi * 2) (endAngle options)
      \<and> 4 \<le> assign 12 (segments options))"

definition sweep_start :: "(real \<times> real) cylinder_options \<Rightarrow> real" where
  "sweep_start options = js_mod (assign 0 (startAngle options)) (pi * 2)"

definition sweep_end :: "(real \<times> real) cylinder_options \<Rightarrow> real" where
  "sweep_end options = js_mod (assign (pi * 2) (endAngle options)) (pi * 2)"

definition sweep_rotation :: "(real \<times> real) cylinder_options \<Rightarrow> real" where
  "sweep_rotation options = rotation_of (sweep_start options) (sweep_end options)"

definition sweep_slices :: "(real \<times> real) cylinder_options \<Rightarrow> nat" where
  "sweep_slices options = slices_of (assign 12 (segments options)) (sweep_rotation options)"

definition sweep_scope :: "real \<Rightarrow> (real \<times> real) cylinder_options \<Rightarrow> scope" where
  "sweep_scope EPS options =
     make_scope EPS (case center_array options of None \<Rightarrow> [] | Some xyz \<Rightarrow> xyz)
       (assign 2 (height options)) (assign (1, 1) (startRadius options))
       (assign (1, 1) (endRadius options)) (sweep_start options) (sweep_rotation options)"

definition rmin :: "(real \<times> real) cylinder_options \<Rightarrow> real" where
  "rmin options =
     Min {fst (assign (1, 1) (startRadius options)), snd (assign (1, 1) (startRadius options)),
          fst (assign (1, 1) (endRadius options)), snd (assign (1, 1) (endRadius options))}"

definition InsufficientRotation :: error where
  "InsufficientRotation =
     Error ''startAngle and endAngle to not define a significant rotation''"

text \<open>Lines 49-115: the generator after its per-field validations, on the values
  above.\<close>

definition after_validation :: "real \<Rightarrow> (real \<times> real) cylinder_options \<Rightarrow> error + geom3" where
  "after_validation EPS options =
     (if less_number (sweep_rotation options)
           (minangle_of EPS (assign (1, 1) (startRadius options))
              (assign (1, 1) (endRadius options)))
      then Inl InsufficientRotation
      else bind (slice_loop (sweep_scope EPS options) (sweep_slices options) 0 [])
             (\<lambda>polygons.
           bind (if sweep_rotation options < pi * 2
                 then end_walls (sweep_scope EPS options) polygons else Inr polygons)
             (\<lambda>polygons. Inr (geom3_create polygons))))"

text \<open>The angular boundary plane of a sweep at the angle \<open>a\<close>: the plane through the
  axis of the cylinder (the line through \<open>center + start\<close> along \<open>ray\<close>) that holds
  the direction \<open>cos a * axisX + sin a * axisY\<close>.\<close>

definition angular_plane :: "scope \<Rightarrow> real \<Rightarrow> vec3 \<Rightarrow> bool" where
  "angular_plane sc a p =
     (vec3_dot
        (vec3_subtract p (vec3_add (sc_start sc) (vec3_fromArray (sc_center sc))))
        (vec3_cross (sc_ray sc)
           (vec3_add (vec3_scale (cos a) (sc_axisX sc)) (vec3_scale (sin a) (sc_axisY sc))))
      = 0)"

text \<open>The directed edges of a polygon and of a mesh. A mesh is a closed, oriented
  2-manifold boundary when every directed edge occurs once and its reverse occurs
  once.\<close>

fun edges_from :: "vec3 \<Rightarrow> vec3 list \<Rightarrow> (vec3 \<times> vec3) list" where
  "edges_from first [] = []"
| "edges_from first [v] = [(v, first)]"
| "edges_from first (v # w # vs) = (v, w) # edges_from first (w # vs)"

definition polygon_edges :: "poly3 \<Rightarrow> (vec3 \<times> vec3) list" where
  "polygon_edges p = (case vertices p of [] \<Rightarrow> [] | v # vs \<Rightarrow> edges_from v (v # vs))"

definition mesh_edges :: "geom3 \<Rightarrow> (vec3 \<times> vec3) list" where
  "mesh_edges g = concat (map polygon_edges (polygons g))"

definition closed_manifold :: "geom3 \<Rightarrow> bool" where
  "closed_manifold g =
     list_all (\<lambda>(a, b). count_list (mesh_edges g) (a, b) = 1
                       \<and> count_list (mesh_edges g) (b, a) = 1) (mesh_edges g)"

text \<open>The corner of an ellipsoid cell as the description gives it:
  \<open>center + cos(pitch) * cylinderPoint \<plusminus> sin(pitch) * zvector\<close>, with the sign
  \<open>s\<close> (\<open>-1\<close> for the lower and \<open>1\<close> for the upper hemisphere), at the longitude step
  \<open>i\<close> and the latitude step \<open>j\<close>; and the corners of the cell that ends at the
  steps \<open>slice1\<close>, \<open>slice2\<close>.\<close>

definition cylinderpoint_at :: "escope \<Rightarrow> nat \<Rightarrow> vec3" where
  "cylinderpoint_at es i =
     (let angle = pi * 2 * real i / real_of_int (es_segments es)
      in vec3_add (vec3_scale (cos angle) (es_xvector es))
                  (vec3_scale (sin angle) (es_yvector es)))"

definition pitch_at :: "escope \<Rightarrow> nat \<Rightarrow> real" where
  "pitch_at es j = pi / 2 * real j / real_of_int (es_qsegments es)"

definition corner :: "escope \<Rightarrow> real \<Rightarrow> nat \<Rightarrow> nat \<Rightarrow> vec3" where
  "corner es s i j =
     vec3_add (vec3_fromArray (es_center es))
       (vec3_add (vec3_scale (cos (pitch_at es j)) (cylinderpoint_at es i))
                 (vec3_scale (s * sin (pitch_at es j)) (es_zvector es)))"

definition cell_corners :: "escope \<Rightarrow> real \<Rightarrow> nat \<Rightarrow> nat \<Rightarrow> vec3 list" where
  "cell_corners es s slice1 slice2 =
     [corner es s (slice1 - 1) (slice2 - 1), corner es s slice1 (slice2 - 1)]
     @ (if int slice2 < es_qsegments es then [corner es s slice1 slice2] else [])
     @ [corner es s (slice1 - 1) slice2]"

definition ellipsoid_scope :: "real \<Rightarrow> jsvalue ellipsoid_options \<Rightarrow> escope" where
  "ellipsoid_scope EPS options =
     (let center = (case center_array options of None \<Rightarrow> [] | Some xyz \<Rightarrow> xyz);
          radius = (case assign (Array [1, 1, 1]) (radius options) of
                      Number x \<Rightarrow> [] | Array rs \<Rightarrow> rs);
          segments = assign 12 (segments options);
          axes = assign ((1, 0, 0), (0, -1, 0), (0, 0, 1)) (axes options)
      in \<lparr>es_EPS = EPS, es_center = center, es_segments = segments,
          es_qsegments = Math_round (of_int segments / 4),
          es_xvector = vec3_scale (radius ! 0) (vec3_unit (fst axes)),
          es_yvector = vec3_scale (radius ! 1) (vec3_unit (fst (snd axes))),
          es_zvector = vec3_scale (radius ! 2) (vec3_unit (snd (snd axes)))\<rparr>)"

text \<open>The two patches of a cell, as they are pushed: the lower one in the order of its
  corners, the upper one reversed; and the patches of all cells, longitude by longitude.\<close>

definition cell_patches :: "escope \<Rightarrow> nat \<Rightarrow> nat \<Rightarrow> vec3 list list" where
  "cell_patches es slice1 slice2 =
     [cell_corners es (- 1) slice1 slice2, rev (cell_corners es 1 slice1 slice2)]"

definition ellipsoid_patches :: "escope \<Rightarrow> vec3 list list" where
  "ellipsoid_patches es =
     concat (map (\<lambda>slice1. concat (map (cell_patches es slice1)
                                         [1 ..< nat (es_qsegments es) + 1]))
                 [1 ..< nat (es_segments es) + 1])"

text \<open>The validations of the ellipsoid (lines 26-32); none reads the axes.\<close>

definition radius_valid :: "jsvalue ellipsoid_options \<Rightarrow> bool" where
  "radius_valid options =
     (case assign (Array [1, 1, 1]) (radius options) of
        Number x \<Rightarrow> False | Array rs \<Rightarrow> 3 \<le> length rs)"

text \<open>The polygons of a sequence of point lists, made in order; the first failure is
  the result. A piece of a generator that takes the polygons made so far emits the point
  lists \<open>L\<close> when it appends their polygons, made in that order.\<close>

fun polygons_fromPoints :: "real \<Rightarrow> vec3 list list \<Rightarrow> error + poly3 list" where
  "polygons_fromPoints EPS [] = Inr []"
| "polygons_fromPoints EPS (points # rest) =
     bind (poly3_fromPoints EPS points) (\<lambda>p.
     bind (polygons_fromPoints EPS rest) (\<lambda>ps. Inr (p # ps)))"

definition emits :: "real \<Rightarrow> vec3 list list \<Rightarrow> (poly3 list \<Rightarrow> error + poly3 list) \<Rightarrow> bool" where
  "emits EPS L prog =
     (\<forall>ps. prog ps = bind (polygons_fromPoints EPS L) (\<lambda>qs. Inr (ps @ qs)))"

text \<open>The point lists of one slice of the cylinder (lines 93-106) and of the four walls
  of a partial sweep (lines 109-112), before and after the translation to the center.\<close>

definition slice_points :: "scope \<Rightarrow> nat \<Rightarrow> nat \<Rightarrow> vec3 list list" where
  "slice_points sc slices i =
     (let t0 = real i / real slices; t1 = (real i + 1) / real slices;
          sr = sc_startRadius sc; er = sc_endRadius sc
      in if fst er = fst sr \<and> snd er = snd sr then
           [[sc_start sc, point sc 0 t0 er, point sc 0 t1 er],
            [point sc 0 t1 er, point sc 0 t0 er, point sc 1 t0 er, point sc 1 t1 er],
            [sc_end sc, point sc 1 t1 er, point sc 1 t0 er]]
         else
           (if fst sr > 0 then
              [[sc_start sc, point sc 0 t0 sr, point sc 0 t1 sr],
               [point sc 0 t0 sr, point sc 1 t0 er, point sc 0 t1 sr]]
            else [])
           @ (if fst er > 0 then
                [[sc_end sc, point sc 1 t1 er, point sc 1 t0 er],
                 [point sc 1 t0 er, point sc 1 t1 er, point sc 0 t1 sr]]
              else []))"

definition wall_points :: "scope \<Rightarrow> vec3 list list" where
  "wall_points sc =
     [[sc_start sc, sc_end sc, point sc 0 0 (sc_startRadius sc)],
      [point sc 0 0 (sc_startRadius sc), sc_end sc, point sc 1 0 (sc_endRadius sc)],
      [sc_start sc, point sc 0 1 (sc_startRadius sc), sc_end sc],
      [point sc 0 1 (sc_startRadius sc), point sc 1 1 (sc_endRadius sc), sc_end sc]]"

definition centered :: "scope \<Rightarrow> vec3 list list \<Rightarrow> vec3 list list" where
  "centered sc L = map (map (\<lambda>p. vec3_add p (vec3_fromArray (sc_center sc)))) L"

text \<open>A sufficient test for the construction of a polygon: the cross product of the
  first two edges is longer than the tolerance.\<close>

definition first_triple_ok :: "real \<Rightarrow> vec3 list \<Rightarrow> bool" where
  "first_triple_ok EPS pts =
     (case pts of a # b # c # ps \<Rightarrow>
        EPS * EPS < vec3_dot (vec3_cross (vec3_subtract b a) (vec3_subtract c b))
                             (vec3_cross (vec3_subtract b a) (vec3_subtract c b))
      | _ \<Rightarrow> False)"

text \<open>The vertices of the cylinder of height 2, radius 1 and 4 segments: for each of
  the four slices a triangle of the start cap, a side quad and a triangle of the end
  cap.\<close>

definition cylinder4_points :: "vec3 list list" where
  "cylinder4_points =
     [[(0, 0, - 1), (1, 0, - 1), (0, - 1, - 1)],
      [(0, - 1, - 1), (1, 0, - 1), (1, 0, 1), (0, - 1, 1)],
      [(0, 0, 1), (0, - 1, 1), (1, 0, 1)],
      [(0, 0, - 1), (0, - 1, - 1), (- 1, 0, - 1)],
      [(- 1, 0, - 1), (0, - 1, - 1), (0, - 1, 1), (- 1, 0, 1)],
      [(0, 0, 1), (- 1, 0, 1), (0, - 1, 1)],
      [(0, 0, - 1), (- 1, 0, - 1), (0, 1, - 1)],
      [(0, 1, - 1), (- 1, 0, - 1), (- 1, 0, 1), (0, 1, 1)],
      [(0, 0, 1), (0, 1, 1), (- 1, 0, 1)],
      [(0, 0, - 1), (0, 1, - 1), (1, 0, - 1)],
      [(1, 0, - 1), (0, 1, - 1), (0, 1, 1), (1, 0, 1)],
      [(0, 0, 1), (1, 0, 1), (0, 1, 1)]]"

text \<open>The vertices of the half cylinder (height 2, radius 1, 4 segments, sweep from
  \<open>0\<close> to \<open>pi\<close>): two slices of three polygons, then the four walls.\<close>

definition halfcylinder_points :: "vec3 list list" where
  "halfcylinder_points =
     [[(0, 0, - 1), (1, 0, - 1), (0, - 1, - 1)],
      [(0, - 1, - 1), (1, 0, - 1), (1, 0, 1), (0, - 1, 1)],
      [(0, 0, 1), (0, - 1, 1), (1, 0, 1)],
      [(0, 0, - 1), (0, - 1, - 1), (- 1, 0, - 1)],
      [(- 1, 0, - 1), (0, - 1, - 1), (0, - 1, 1), (- 1, 0, 1)],
      [(0, 0, 1), (- 1, 0, 1), (0, - 1, 1)],
      [(0, 0, - 1), (0, 0, 1), (1, 0, - 1)],
      [(1, 0, - 1), (0, 0, 1), (1, 0, 1)],
      [(0, 0, - 1), (- 1, 0, - 1), (0, 0, 1)],
      [(- 1, 0, - 1), (- 1, 0, 1), (0, 0, 1)]]"

text \<open>The vertices of two wedges of an eighth of a turn with 4 segments, which have no
  slice and so the four walls only: with radii \<open>[1, 1]\<close> at both ends, and with the
  radii \<open>[2, 1]\<close> at the start and \<open>[1, 2]\<close> at the end.\<close>

definition wedge_points :: "vec3 list list" where
  "wedge_points =
     [[(0, 0, - 1), (0, 0, 1), (1, 0, - 1)],
      [(1, 0, - 1), (0, 0, 1), (1, 0, 1)],
      [(0, 0, - 1), (sqrt 2 / 2, - (sqrt 2 / 2), - 1), (0, 0, 1)],
      [(sqrt 2 / 2, - (sqrt 2 / 2), - 1), (sqrt 2 / 2, - (sqrt 2 / 2), 1), (0, 0, 1)]]"

definition elliptic_wedge_points :: "vec3 list list" where
  "elliptic_wedge_points =
     [[(0, 0, - 1), (0, 0, 1), (2, 0, - 1)],
      [(2, 0, - 1), (0, 0, 1), (1, 0, 1)],
      [(0, 0, - 1), (sqrt 2, - (sqrt 2 / 2), - 1), (0, 0, 1)],
      [(sqrt 2, - (sqrt 2 / 2), - 1), (sqrt 2 / 2, - sqrt 2, 1), (0, 0, 1)]]"

text \<open>The vertices of the ellipsoid of radius \<open>[1, 1, 1]\<close> with 4 segments: four
  longitude steps of one latitude row, which is the last one, so every patch is a
  triangle.\<close>

definition octahedron_points :: "vec3 list list" where
  "octahedron_points =
     [[(1, 0, 0), (0, - 1, 0), (0, 0, - 1)], [(0, 0, 1), (0, - 1, 0), (1, 0, 0)],
      [(0, - 1, 0), (- 1, 0, 0), (0, 0, - 1)], [(0, 0, 1), (- 1, 0, 0), (0, - 1, 0)],
      [(- 1, 0, 0), (0, 1, 0), (0, 0, - 1)], [(0, 0, 1), (0, 1, 0), (- 1, 0, 0)],
      [(0, 1, 0), (1, 0, 0), (0, 0, - 1)], [(0, 0, 1), (1, 0, 0), (0, 1, 0)]]"

text \<open>The closedness of a mesh, read from the vertex lists of its polygons.\<close>

definition points_closed :: "vec3 list list \<Rightarrow> bool" where
  "points_closed L =
     (let E = concat (map (\<lambda>vs. case vs of [] \<Rightarrow> [] | v # vs' \<Rightarrow> edges_from v (v # vs')) L)
      in list_all (\<lambda>(a, b). count_list E (a, b) = 1 \<and> count_list E (b, a) = 1) E)"





section \<open>Properties\<close>

subsection \<open>Errors and the option defaults\<close>

lemma assign_Some [simp]: "assign d (Some v) = v" and assign_None [simp]: "assign d None = d"
  by (simp_all add: assign_def)

lemma bind_Inr [simp]: "bind (Inr x) f = f x" and bind_Inl [simp]: "bind (Inl e) f = Inl e"
  by (simp_all add: bind_def)

lemma bind_eq_Inr: "bind m f = Inr y \<longleftrightarrow> (\<exists>x. m = Inr x \<and> f x = Inr y)"
  by (cases m) simp_all

lemma bind_eq_Inl: "bind m f = Inl e \<longleftrightarrow> m = Inl e \<or> (\<exists>x. m = Inr x \<and> f x = Inl e)"
  by (cases m) simp_all

lemma poly3_fromPoints_Inr:
  "poly3_fromPoints EPS pts = Inr p \<Longrightarrow> vertices p = pts \<and> 3 \<le> length pts"
  by (auto simp: poly3_fromPoints_def split: if_splits option.splits)

lemma poly3_fromPoints_no_Error: "poly3_fromPoints EPS pts \<noteq> Inl (Error m)"
  by (auto simp: poly3_fromPoints_def split: if_splits option.splits)

lemma push_eq_Inl: "push ps r = Inl e \<longleftrightarrow> r = Inl e"
  by (cases r) (auto simp: push_def)

lemma fromPoints_no_Error: "fromPoints sc pts \<noteq> Inl (Error m)"
  by (simp add: fromPoints_def poly3_fromPoints_no_Error)

lemma slice_body_no_Error: "slice_body sc slices i ps \<noteq> Inl (Error m)"
  by (auto simp: slice_body_def Let_def bind_eq_Inl push_eq_Inl fromPoints_no_Error
      split: if_splits)

lemma slice_loop_no_Error: "slice_loop sc slices i ps \<noteq> Inl (Error m)"
proof (induction sc slices i ps rule: slice_loop.induct)
  case (1 sc slices i ps)
  show ?case
  proof (cases "i < slices")
    case True
    then show ?thesis
      using "1.IH" slice_body_no_Error [of sc slices i ps m]
      by (subst slice_loop.simps) (auto simp: bind_eq_Inl)
  next
    case False
    then show ?thesis by (subst slice_loop.simps) simp
  qed
qed

lemma end_walls_no_Error: "end_walls sc ps \<noteq> Inl (Error m)"
  by (auto simp: end_walls_def Let_def bind_eq_Inl push_eq_Inl fromPoints_no_Error)

lemma cylinderElliptic_valid:
  "fields_valid EPS options \<Longrightarrow> cylinderElliptic EPS options = after_validation EPS options"
  unfolding cylinderElliptic_def after_validation_def fields_valid_def center_valid_def center_array_def
    sweep_scope_def sweep_slices_def sweep_rotation_def sweep_start_def sweep_end_def
    InsufficientRotation_def
  by (auto simp: Let_def split: jsvalue.splits cong: if_cong)

lemma cylinderElliptic_invalid:
  "\<not> fields_valid EPS options \<Longrightarrow> \<exists>m. cylinderElliptic EPS options = Inl (Error m)"
  unfolding cylinderElliptic_def fields_valid_def center_valid_def center_array_def
  by (auto simp: Let_def split: jsvalue.splits)

lemma cylinderElliptic_Inr_valid:
  "cylinderElliptic EPS options = Inr mesh \<Longrightarrow> fields_valid EPS options"
  using cylinderElliptic_invalid [of EPS options] by auto

lemma js_mod_small: "0 \<le> a \<Longrightarrow> a < b \<Longrightarrow> js_mod a b = a"
proof -
  assume a: "0 \<le> a" "a < b"
  then have "0 \<le> a / b" "a / b < 1" by simp_all
  then have "\<lfloor>a / b\<rfloor> = 0" by linarith
  with \<open>0 \<le> a / b\<close> show ?thesis by (simp add: js_mod_def)
qed

lemma js_mod_self: "0 < b \<Longrightarrow> js_mod b b = 0"
  by (simp add: js_mod_def)

lemma js_mod_range:
  assumes "0 \<le> a" "0 < b"
  shows "0 \<le> js_mod a b \<and> js_mod a b < b"
proof -
  have q: "0 \<le> a / b" using assms by simp
  have 1: "of_int \<lfloor>a / b\<rfloor> \<le> a / b" by simp
  have 2: "a / b < of_int \<lfloor>a / b\<rfloor> + 1" by linarith
  have "b * of_int \<lfloor>a / b\<rfloor> \<le> b * (a / b)"
    using 1 assms(2) by (intro mult_left_mono) simp_all
  then have "b * of_int \<lfloor>a / b\<rfloor> \<le> a" using assms(2) by simp
  moreover have "b * (a / b) < b * (of_int \<lfloor>a / b\<rfloor> + 1)"
    using 2 assms(2) by (intro mult_strict_left_mono) simp_all
  then have "a < b * (of_int \<lfloor>a / b\<rfloor> + 1)" using assms(2) by simp
  ultimately show ?thesis using q by (simp add: js_mod_def algebra_simps)
qed

lemma minangle_of_rmin:
  "minangle_of EPS (assign (1, 1) (startRadius options)) (assign (1, 1) (endRadius options))
   = Math_acos ((2 * (rmin options)\<^sup>2 - EPS\<^sup>2) / (2 * (rmin options)\<^sup>2))"
proof -
  have "min (min (min (fst (assign (1, 1) (startRadius options)))
                      (snd (assign (1, 1) (startRadius options))))
                 (fst (assign (1, 1) (endRadius options))))
            (snd (assign (1, 1) (endRadius options))) = rmin options"
    by (simp add: rmin_def min.assoc)
  then show ?thesis
    by (simp add: minangle_of_def Let_def power2_eq_square mult.assoc)
qed

lemma after_validation_Insufficient:
  "after_validation EPS options = Inl InsufficientRotation \<longleftrightarrow>
   less_number (sweep_rotation options)
     (minangle_of EPS (assign (1, 1) (startRadius options)) (assign (1, 1) (endRadius options)))"
  by (auto simp: after_validation_def InsufficientRotation_def bind_eq_Inl slice_loop_no_Error
      end_walls_no_Error split: if_splits)

subsection \<open>The specializations\<close>

lemma cylinderElliptic_defaults:
  "cylinderElliptic EPS options =
   cylinderElliptic EPS \<lparr>center = Some (assign (Array [0, 0, 0]) (center options)),
     segments = Some (assign 12 (segments options)),
     height = Some (assign 2 (height options)),
     startRadius = Some (assign (1, 1) (startRadius options)),
     startAngle = Some (assign 0 (startAngle options)),
     endRadius = Some (assign (1, 1) (endRadius options)),
     endAngle = Some (assign (pi * 2) (endAngle options))\<rparr>"
  unfolding cylinderElliptic_def by simp

text \<open>
  C2. The cylinder with scalar radii is the elliptic cylinder with the same center,
  height, angles and segments, each scalar radius \<open>r\<close> given as the pair \<open>[r, r]\<close>
  (a field that is not supplied stays not supplied: the defaults \<open>1\<close> and \<open>[1, 1]\<close>
  agree). The two calls give the same result: the same error, or the same mesh.
\<close>

theorem cylinder_specialization:
  "cylinder EPS options =
   cylinderElliptic EPS \<lparr>center = center options, segments = segments options,
     height = height options,
     startRadius = map_option (\<lambda>r. (r, r)) (startRadius options),
     startAngle = startAngle options,
     endRadius = map_option (\<lambda>r. (r, r)) (endRadius options),
     endAngle = endAngle options\<rparr>"
proof -
  have sr: "assign (1, 1) (map_option (\<lambda>r. (r, r)) (startRadius options))
            = (assign 1 (startRadius options), assign 1 (startRadius options))"
    by (cases "startRadius options") simp_all
  have er: "assign (1, 1) (map_option (\<lambda>r. (r, r)) (endRadius options))
            = (assign 1 (endRadius options), assign 1 (endRadius options))"
    by (cases "endRadius options") simp_all
  show ?thesis
    unfolding cylinder_def Let_def
    by (subst (2) cylinderElliptic_defaults) (simp add: sr er)
qed

lemma ellipsoid_defaults:
  "ellipsoid EPS options =
   ellipsoid EPS \<lparr>center = Some (assign (Array [0, 0, 0]) (center options)),
     segments = Some (assign 12 (segments options)),
     radius = Some (assign (Array [1, 1, 1]) (radius options)),
     axes = Some (assign ((1, 0, 0), (0, -1, 0), (0, 0, 1)) (axes options))\<rparr>"
  unfolding ellipsoid_def by simp

text \<open>
  C3. The sphere with the scalar radius \<open>r\<close> is the ellipsoid with the same center,
  segments and axes and the radius \<open>[r, r, r]\<close>: the two calls give the same result,
  the same mesh vertex for vertex.
\<close>

theorem sphere_specialization:
  "sphere EPS options =
   ellipsoid EPS \<lparr>center = center options, segments = segments options,
     radius = map_option (\<lambda>r. Array [r, r, r]) (radius options),
     axes = axes options\<rparr>"
proof -
  have r: "assign (Array [1, 1, 1]) (map_option (\<lambda>r. Array [r, r, r]) (radius options))
            = Array [assign 1 (radius options), assign 1 (radius options),
                     assign 1 (radius options)]"
    by (cases "radius options") simp_all
  show ?thesis
    unfolding sphere_def Let_def
    by (subst (2) ellipsoid_defaults) (simp add: r)
qed

subsection \<open>Validation of the elliptic cylinder\<close>

text \<open>
  C6 (amended). For a configuration that passes the per-field validations, the call
  fails with the error of an insufficient rotation exactly when the sweep, computed from
  the angles reduced modulo \<open>2 * pi\<close>, is strictly less than the minimum angle
  \<open>acos((2 * rmin^2 - EPS^2) / (2 * rmin^2))\<close> and that angle is a number (its
  argument lies in \<open>[-1, 1]\<close>). A sweep equal to the minimum angle is accepted.
\<close>

theorem insufficient_rotation_iff:
  assumes "fields_valid EPS options"
  shows "cylinderElliptic EPS options = Inl InsufficientRotation \<longleftrightarrow>
         - 1 \<le> (2 * (rmin options)\<^sup>2 - EPS\<^sup>2) / (2 * (rmin options)\<^sup>2)
         \<and> (2 * (rmin options)\<^sup>2 - EPS\<^sup>2) / (2 * (rmin options)\<^sup>2) \<le> 1
         \<and> sweep_rotation options
             < arccos ((2 * (rmin options)\<^sup>2 - EPS\<^sup>2) / (2 * (rmin options)\<^sup>2))"
  unfolding cylinderElliptic_valid [OF assms] after_validation_Insufficient minangle_of_rmin
  by (auto simp: less_number_def Math_acos_def)

theorem insufficient_rotation_iff_witness:
  "fields_valid 1 \<lparr>center = None, segments = None, height = None, startRadius = None,
       startAngle = None, endRadius = None, endAngle = Some (1 / 2)\<rparr>
   \<and> cylinderElliptic 1 \<lparr>center = None, segments = None, height = None,
       startRadius = None, startAngle = None, endRadius = None, endAngle = Some (1 / 2)\<rparr>
     = Inl InsufficientRotation"
proof -
  let ?o = "\<lparr>center = None, segments = None, height = None, startRadius = None,
       startAngle = None, endRadius = None, endAngle = Some (1 / 2 :: real)\<rparr>
       :: (real \<times> real) cylinder_options"
  have v: "fields_valid 1 ?o"
    by (simp add: fields_valid_def center_valid_def center_array_def)
  have r: "rmin ?o = 1" by (simp add: rmin_def)
  have "(1 / 2 :: real) < pi * 2" using pi_ge_two by simp
  then have e: "sweep_end ?o = 1 / 2" by (simp add: sweep_end_def js_mod_small)
  have s: "sweep_start ?o = 0" by (simp add: sweep_start_def js_mod_def)
  have rot: "sweep_rotation ?o = 1 / 2"
    by (simp add: sweep_rotation_def rotation_of_def e s)
  have "(1 / 2 :: real) < pi / 3" using pi_ge_two by simp
  then show ?thesis
    using v insufficient_rotation_iff [OF v] by (simp add: r rot)
qed

theorem insufficient_rotation_counterexample:
  "fields_valid (1 / 100000) \<lparr>center = None, segments = None, height = None,
       startRadius = None, startAngle = None, endRadius = None,
       endAngle = Some (arccos ((2 - (1 / 100000)\<^sup>2) / 2))\<rparr>
   \<and> rmin \<lparr>center = None, segments = None, height = None,
       startRadius = None, startAngle = None, endRadius = None,
       endAngle = Some (arccos ((2 - (1 / 100000)\<^sup>2) / 2))\<rparr> = 1
   \<and> sweep_rotation \<lparr>center = None, segments = None, height = None,
       startRadius = None, startAngle = None, endRadius = None,
       endAngle = Some (arccos ((2 - (1 / 100000)\<^sup>2) / 2))\<rparr>
     = arccos ((2 * 1\<^sup>2 - (1 / 100000)\<^sup>2) / (2 * 1\<^sup>2))
   \<and> cylinderElliptic (1 / 100000) \<lparr>center = None, segments = None, height = None,
       startRadius = None, startAngle = None, endRadius = None,
       endAngle = Some (arccos ((2 - (1 / 100000)\<^sup>2) / 2))\<rparr>
     \<noteq> Inl InsufficientRotation"
proof -
  let ?q = "(2 - (1 / 100000)\<^sup>2) / 2 :: real"
  let ?o = "\<lparr>center = None, segments = None, height = None, startRadius = None,
       startAngle = None, endRadius = None, endAngle = Some (arccos ?q)\<rparr>
       :: (real \<times> real) cylinder_options"
  have q: "- 1 < ?q" "?q < 1" by (simp_all add: power2_eq_square)
  have th: "0 < arccos ?q" "arccos ?q < pi" using arccos_lt_bounded [OF q] by simp_all
  have v: "fields_valid (1 / 100000) ?o"
    using th by (simp add: fields_valid_def center_valid_def center_array_def)
  have r: "rmin ?o = 1" by (simp add: rmin_def)
  have "arccos ?q < pi * 2" using th pi_gt_zero by linarith
  then have e: "sweep_end ?o = arccos ?q" using th by (simp add: sweep_end_def js_mod_small)
  have s: "sweep_start ?o = 0" by (simp add: sweep_start_def js_mod_def)
  have rot: "sweep_rotation ?o = arccos ?q"
    using th by (simp add: sweep_rotation_def rotation_of_def e s)
  have m: "minangle_of (1 / 100000) (assign (1, 1) (startRadius ?o))
             (assign (1, 1) (endRadius ?o)) = Some (arccos ?q)"
    using q minangle_of_rmin [of "1 / 100000" ?o] by (simp add: r Math_acos_def)
  have "cylinderElliptic (1 / 100000) ?o \<noteq> Inl InsufficientRotation"
    unfolding cylinderElliptic_valid [OF v] after_validation_Insufficient m rot
    by (simp add: less_number_def)
  then show ?thesis using v r rot by simp
qed




subsection \<open>Validation of the ellipsoid\<close>

lemma cell_polygons_no_Error:
  "cell_polygons es pc c j pcos psin cs sn ps \<noteq> Inl (Error m)"
  by (auto simp: cell_polygons_def Let_def bind_eq_Inl push_eq_Inl poly3_fromPoints_no_Error)

lemma pitch_loop_no_Error: "pitch_loop es pc c j pcos psin ps \<noteq> Inl (Error m)"
proof (induction es pc c j pcos psin ps rule: pitch_loop.induct)
  case (1 es pc c j pcos psin ps)
  show ?case
  proof (cases "int j \<le> es_qsegments es")
    case True
    then show ?thesis
      using "1.IH" cell_polygons_no_Error
      by (subst pitch_loop.simps) (auto simp: bind_eq_Inl Let_def split: if_splits)
  next
    case False
    then show ?thesis by (subst pitch_loop.simps) simp
  qed
qed

lemma longitude_loop_no_Error: "longitude_loop es i pc ps \<noteq> Inl (Error m)"
proof (induction es i pc ps rule: longitude_loop.induct)
  case (1 es i pc ps)
  show ?case
  proof (cases "int i \<le> es_segments es")
    case True
    then show ?thesis
      using "1.IH" pitch_loop_no_Error
      by (subst longitude_loop.simps) (auto simp: bind_eq_Inl Let_def split: if_splits)
  next
    case False
    then show ?thesis by (subst longitude_loop.simps) simp
  qed
qed

lemma ellipsoid_valid:
  "center_valid options \<Longrightarrow> radius_valid options \<Longrightarrow> 4 \<le> assign 12 (segments options) \<Longrightarrow>
   ellipsoid EPS options =
     bind (longitude_loop (ellipsoid_scope EPS options) 0 (0, 0, 0) [])
       (\<lambda>polygons. Inr (geom3_create polygons))"
  unfolding ellipsoid_def ellipsoid_scope_def center_valid_def radius_valid_def center_array_def
  by (auto simp: Let_def split: jsvalue.splits cong: if_cong)


text \<open>
  C10. The ellipsoid (and so the sphere) never validates the axes: when the center and
  the radius are arrays of at least three components and segments is at least 4, then
  whatever the axes are (zero vectors and frames that are not orthogonal included) the
  validations pass, the call is the run of the two loops, and no \<open>Error\<close> with a
  message is raised at all, so none that names the axes.
\<close>

theorem ellipsoid_axes_unvalidated:
  assumes "center_valid options" and "radius_valid options"
    and "4 \<le> assign 12 (segments options)"
  shows "ellipsoid EPS (options\<lparr>axes := a\<rparr>) =
           bind (longitude_loop (ellipsoid_scope EPS (options\<lparr>axes := a\<rparr>)) 0 (0, 0, 0) [])
             (\<lambda>polygons. Inr (geom3_create polygons))
         \<and> (\<forall>msg. ellipsoid EPS (options\<lparr>axes := a\<rparr>) \<noteq> Inl (Error msg))"
proof -
  have c: "center_valid (options\<lparr>axes := a\<rparr>)"
    using assms(1) by (simp add: center_valid_def center_array_def)
  have r: "radius_valid (options\<lparr>axes := a\<rparr>)"
    using assms(2) by (simp add: radius_valid_def)
  have s: "4 \<le> assign 12 (segments (options\<lparr>axes := a\<rparr>))"
    using assms(3) by simp
  show ?thesis
    unfolding ellipsoid_valid [OF c r s]
    by (auto simp: bind_eq_Inl longitude_loop_no_Error)
qed

theorem ellipsoid_axes_unvalidated_witness:
  "center_valid \<lparr>center = None, segments = None, radius = None :: jsvalue option,
       axes = None\<rparr>
   \<and> (\<forall>msg. ellipsoid (1 / 100000)
         \<lparr>center = None, segments = None, radius = None,
          axes = Some ((0, 0, 0), (0, 0, 0), (0, 0, 0))\<rparr> \<noteq> Inl (Error msg))
   \<and> (\<forall>msg. ellipsoid (1 / 100000)
         \<lparr>center = None, segments = None, radius = None,
          axes = Some ((1, 0, 0), (1, 1, 0), (1, 0, 0))\<rparr> \<noteq> Inl (Error msg))"
proof -
  let ?o = "\<lparr>center = None, segments = None, radius = None :: jsvalue option,
       axes = None\<rparr>"
  have c: "center_valid ?o" by (simp add: center_valid_def center_array_def)
  have r: "radius_valid ?o" by (simp add: radius_valid_def)
  have s: "4 \<le> assign 12 (segments ?o)" by simp
  note u = conjunct2 [OF ellipsoid_axes_unvalidated [OF c r s]]
  show ?thesis
    using c u [of "1 / 100000" "Some ((0, 0, 0), (0, 0, 0), (0, 0, 0))"]
      u [of "1 / 100000" "Some ((1, 0, 0), (1, 1, 0), (1, 0, 0))"]
    by simp
qed

subsection \<open>The polygons of the ellipsoid\<close>

lemma vec3_subtract_scale:
  "vec3_subtract a (vec3_scale t z) = vec3_add a (vec3_scale (- 1 * t) z)"
  by (cases a, cases z) simp

lemma bind_assoc: "bind (bind m f) g = bind m (\<lambda>x. bind (f x) g)"
  by (cases m) simp_all

lemma bind_Inr_right [simp]: "bind m Inr = m"
  by (cases m) simp_all

lemma polygons_fromPoints_append:
  "polygons_fromPoints EPS (A @ B) =
   bind (polygons_fromPoints EPS A) (\<lambda>xs. bind (polygons_fromPoints EPS B) (\<lambda>ys. Inr (xs @ ys)))"
proof (induction A)
  case Nil
  show ?case by simp
next
  case (Cons a A)
  show ?case
    by (cases "poly3_fromPoints EPS a"; cases "polygons_fromPoints EPS A";
        cases "polygons_fromPoints EPS B") (simp_all add: Cons)
qed

lemma emits_Nil: "emits EPS [] Inr"
  by (simp add: emits_def)

lemma emits_push: "emits EPS [pts] (\<lambda>ps. push ps (poly3_fromPoints EPS pts))"
  by (cases "poly3_fromPoints EPS pts") (simp_all add: emits_def push_def)

lemma emits_bind:
  assumes "emits EPS A f" and "emits EPS B g"
  shows "emits EPS (A @ B) (\<lambda>ps. bind (f ps) g)"
  using assms unfolding emits_def polygons_fromPoints_append
  by (cases "polygons_fromPoints EPS A"; cases "polygons_fromPoints EPS B") simp_all

lemma emitsD: "emits EPS L prog \<Longrightarrow> prog ps = bind (polygons_fromPoints EPS L) (\<lambda>qs. Inr (ps @ qs))"
  by (simp add: emits_def)

lemma polygons_fromPoints_vertices:
  "polygons_fromPoints EPS L = Inr ps \<Longrightarrow> map vertices ps = L"
proof (induction L arbitrary: ps)
  case Nil
  then show ?case by simp
next
  case (Cons a L)
  then show ?case by (auto simp: bind_eq_Inr dest: poly3_fromPoints_Inr)
qed

text \<open>The ellipsoid.\<close>

lemma cell_polygons_emits:
  "emits (es_EPS es) (cell_patches es i j)
     (cell_polygons es (cylinderpoint_at es (i - 1)) (cylinderpoint_at es i) j
        (cos (pitch_at es (j - 1))) (sin (pitch_at es (j - 1)))
        (cos (pitch_at es j)) (sin (pitch_at es j)))"
proof -
  have "emits (es_EPS es)
          ([cell_corners es (- 1) i j] @ [rev (cell_corners es 1 i j)])
          (\<lambda>ps. bind (push ps (poly3_fromPoints (es_EPS es) (cell_corners es (- 1) i j)))
             (\<lambda>ps. push ps (poly3_fromPoints (es_EPS es) (rev (cell_corners es 1 i j)))))"
    by (intro emits_bind emits_push)
  moreover have "cell_polygons es (cylinderpoint_at es (i - 1)) (cylinderpoint_at es i) j
        (cos (pitch_at es (j - 1))) (sin (pitch_at es (j - 1)))
        (cos (pitch_at es j)) (sin (pitch_at es j))
      = (\<lambda>ps. bind (push ps (poly3_fromPoints (es_EPS es) (cell_corners es (- 1) i j)))
             (\<lambda>ps. push ps (poly3_fromPoints (es_EPS es) (rev (cell_corners es 1 i j)))))"
    by (rule ext)
       (simp add: cell_polygons_def Let_def cell_corners_def corner_def vec3_subtract_scale)
  ultimately show ?thesis by (simp add: cell_patches_def)
qed


lemma upt_max_Cons:
  "0 < j \<Longrightarrow> int j \<le> q \<Longrightarrow> [max 1 j ..< nat q + 1] = j # [max 1 (j + 1) ..< nat q + 1]"
proof -
  assume j: "0 < j" "int j \<le> q"
  then have "j < nat q + 1" by linarith
  then have "[j ..< nat q + 1] = j # [j + 1 ..< nat q + 1]" by (simp add: upt_conv_Cons)
  then show ?thesis using j by (simp add: max_def)
qed

lemma pitch_loop_emits:
  assumes "pc = cylinderpoint_at es (i - 1)" and "c = cylinderpoint_at es i"
    and "0 < j \<Longrightarrow> pcos = cos (pitch_at es (j - 1)) \<and> psin = sin (pitch_at es (j - 1))"
  shows "emits (es_EPS es)
           (concat (map (cell_patches es i) [max 1 j ..< nat (es_qsegments es) + 1]))
           (pitch_loop es pc c j pcos psin)"
  using assms
proof (induction es pc c j pcos psin "[] :: poly3 list" rule: pitch_loop.induct)
  case (1 es pc c j pcos psin)
  show ?case
  proof (cases "int j \<le> es_qsegments es")
    case False
    then have "pitch_loop es pc c j pcos psin = Inr"
      by (intro ext, subst pitch_loop.simps) simp
    moreover have "[max 1 j ..< nat (es_qsegments es) + 1] = []" using False by auto
    ultimately show ?thesis by (simp add: emits_Nil)
  next
    case True
    define cs where "cs = cos (0.5 * pi * real j / real_of_int (es_qsegments es))"
    define sn where "sn = sin (0.5 * pi * real j / real_of_int (es_qsegments es))"
    have cs: "cs = cos (pitch_at es j)" and sn: "sn = sin (pitch_at es j)"
      by (simp_all add: cs_def sn_def pitch_at_def)
    have unf: "pitch_loop es pc c j pcos psin =
        (\<lambda>ps. bind (if 0 < j then cell_polygons es pc c j pcos psin cs sn ps else Inr ps)
          (pitch_loop es pc c (j + 1) cs sn))"
      using True by (intro ext, subst pitch_loop.simps) (simp add: Let_def cs_def sn_def)
    have rest: "emits (es_EPS es)
           (concat (map (cell_patches es i) [max 1 (j + 1) ..< nat (es_qsegments es) + 1]))
           (pitch_loop es pc c (j + 1) cs sn)"
      unfolding cs_def sn_def
      by (rule "1.hyps" [OF True refl refl refl])
         (use "1.prems" in \<open>simp_all add: pitch_at_def\<close>)
    show ?thesis
    proof (cases "0 < j")
      case False
      then have "j = 0" by simp
      then show ?thesis using rest unfolding unf by (simp add: emits_def)
    next
      case j: True
      have "emits (es_EPS es) (cell_patches es i j) (cell_polygons es pc c j pcos psin cs sn)"
        using cell_polygons_emits [of es i j] "1.prems" j by (simp add: cs sn)
      from emits_bind [OF this rest]
      have "emits (es_EPS es)
          (cell_patches es i j
           @ concat (map (cell_patches es i) [max 1 (j + 1) ..< nat (es_qsegments es) + 1]))
          (\<lambda>ps. bind (cell_polygons es pc c j pcos psin cs sn ps)
                 (pitch_loop es pc c (j + 1) cs sn))" .
      moreover have "pitch_loop es pc c j pcos psin =
          (\<lambda>ps. bind (cell_polygons es pc c j pcos psin cs sn ps)
                 (pitch_loop es pc c (j + 1) cs sn))"
        unfolding unf using j by simp
      moreover have "concat (map (cell_patches es i) [max 1 j ..< nat (es_qsegments es) + 1])
          = cell_patches es i j
           @ concat (map (cell_patches es i) [max 1 (j + 1) ..< nat (es_qsegments es) + 1])"
        by (subst upt_max_Cons [OF j True]) simp
      ultimately show ?thesis by simp
    qed
  qed
qed

lemma longitude_loop_emits:
  assumes "0 < i \<Longrightarrow> pc = cylinderpoint_at es (i - 1)"
  shows "emits (es_EPS es)
           (concat (map (\<lambda>slice1. concat (map (cell_patches es slice1)
                                                 [1 ..< nat (es_qsegments es) + 1]))
                         [max 1 i ..< nat (es_segments es) + 1]))
           (longitude_loop es i pc)"
  using assms
proof (induction es i pc "[] :: poly3 list" rule: longitude_loop.induct)
  case (1 es i pc)
  let ?row = "\<lambda>slice1. concat (map (cell_patches es slice1) [1 ..< nat (es_qsegments es) + 1])"
  show ?case
  proof (cases "int i \<le> es_segments es")
    case False
    then have "longitude_loop es i pc = Inr"
      by (intro ext, subst longitude_loop.simps) simp
    moreover have "[max 1 i ..< nat (es_segments es) + 1] = []" using False by auto
    ultimately show ?thesis by (simp add: emits_Nil)
  next
    case True
    define c where "c = vec3_add
          (vec3_scale (cos (pi * 2.0 * real i / real_of_int (es_segments es))) (es_xvector es))
          (vec3_scale (sin (pi * 2.0 * real i / real_of_int (es_segments es))) (es_yvector es))"
    have c: "c = cylinderpoint_at es i"
      by (simp add: c_def cylinderpoint_at_def Let_def)
    have unf: "longitude_loop es i pc =
        (\<lambda>ps. bind (if 0 < i then pitch_loop es pc c 0 0 0 ps else Inr ps)
          (longitude_loop es (i + 1) c))"
      using True by (intro ext, subst longitude_loop.simps) (simp add: Let_def c_def)
    have rest: "emits (es_EPS es)
           (concat (map ?row [max 1 (i + 1) ..< nat (es_segments es) + 1]))
           (longitude_loop es (i + 1) c)"
      unfolding c_def
      by (rule "1.hyps" [OF True refl refl]) (simp add: cylinderpoint_at_def Let_def)
    show ?thesis
    proof (cases "0 < i")
      case False
      then have "i = 0" by simp
      then show ?thesis using rest unfolding unf by (simp add: emits_def)
    next
      case i: True
      have "emits (es_EPS es) (?row i) (pitch_loop es pc c 0 0 0)"
        using pitch_loop_emits [of pc es i c 0 0 0] "1.prems" i by (simp add: c)
      from emits_bind [OF this rest]
      have "emits (es_EPS es)
          (?row i @ concat (map ?row [max 1 (i + 1) ..< nat (es_segments es) + 1]))
          (\<lambda>ps. bind (pitch_loop es pc c 0 0 0 ps) (longitude_loop es (i + 1) c))" .
      moreover have "longitude_loop es i pc =
          (\<lambda>ps. bind (pitch_loop es pc c 0 0 0 ps) (longitude_loop es (i + 1) c))"
        unfolding unf using i by simp
      moreover have "concat (map ?row [max 1 i ..< nat (es_segments es) + 1])
          = ?row i @ concat (map ?row [max 1 (i + 1) ..< nat (es_segments es) + 1])"
        by (subst upt_max_Cons [OF i True]) simp
      ultimately show ?thesis by simp
    qed
  qed
qed

lemma ellipsoid_EPS [simp]: "es_EPS (ellipsoid_scope EPS options) = EPS"
  by (simp add: ellipsoid_scope_def Let_def)

lemma ellipsoid_polygons:
  assumes "center_valid options" and "radius_valid options"
    and "4 \<le> assign 12 (segments options)"
  shows "ellipsoid EPS options =
         bind (polygons_fromPoints EPS (ellipsoid_patches (ellipsoid_scope EPS options)))
           (\<lambda>polygons. Inr (geom3_create polygons))"
proof -
  have "longitude_loop (ellipsoid_scope EPS options) 0 (0, 0, 0) [] =
        polygons_fromPoints EPS (ellipsoid_patches (ellipsoid_scope EPS options))"
    using emitsD [OF longitude_loop_emits [of 0 "(0, 0, 0)" "ellipsoid_scope EPS options"], of "[]"]
    by (simp add: ellipsoid_patches_def)
  then show ?thesis by (simp add: ellipsoid_valid [OF assms])
qed




subsection \<open>The polygons of the elliptic cylinder\<close>

lemma centered_append: "centered sc (A @ B) = centered sc A @ centered sc B"
  by (simp add: centered_def)

lemma emits_fromPoints:
  "emits (sc_EPS sc) (centered sc [pts]) (\<lambda>ps. push ps (fromPoints sc pts))"
  using emits_push [of "sc_EPS sc" "map (\<lambda>p. vec3_add p (vec3_fromArray (sc_center sc))) pts"]
  by (simp add: fromPoints_def centered_def Let_def)

lemma emits_cong: "emits EPS A f \<Longrightarrow> A = B \<Longrightarrow> f = g \<Longrightarrow> emits EPS B g"
  by simp

lemma slice_body_emits:
  "emits (sc_EPS sc) (centered sc (slice_points sc slices i)) (slice_body sc slices i)"
proof -
  let ?sr = "sc_startRadius sc" and ?er = "sc_endRadius sc"
  let ?t0 = "real i / real slices" and ?t1 = "(real i + 1) / real slices"
  show ?thesis
  proof (cases "fst ?er = fst ?sr \<and> snd ?er = snd ?sr")
    case True
    have "emits (sc_EPS sc)
        (centered sc [[sc_start sc, point sc 0 ?t0 ?er, point sc 0 ?t1 ?er]]
         @ centered sc [[point sc 0 ?t1 ?er, point sc 0 ?t0 ?er,
                          point sc 1 ?t0 ?er, point sc 1 ?t1 ?er]]
         @ centered sc [[sc_end sc, point sc 1 ?t1 ?er, point sc 1 ?t0 ?er]])
        (\<lambda>ps. bind (push ps (fromPoints sc
                   [sc_start sc, point sc 0 ?t0 ?er, point sc 0 ?t1 ?er])) (\<lambda>ps.
           bind (push ps (fromPoints sc
                   [point sc 0 ?t1 ?er, point sc 0 ?t0 ?er,
                    point sc 1 ?t0 ?er, point sc 1 ?t1 ?er])) (\<lambda>ps.
           push ps (fromPoints sc
                   [sc_end sc, point sc 1 ?t1 ?er, point sc 1 ?t0 ?er]))))"
      by (intro emits_bind emits_fromPoints)
    then show ?thesis
      by (rule emits_cong)
         (use True in \<open>auto simp: slice_points_def slice_body_def Let_def centered_def\<close>)
  next
    case False
    have a: "emits (sc_EPS sc)
        (centered sc (if fst ?sr > 0 then
              [[sc_start sc, point sc 0 ?t0 ?sr, point sc 0 ?t1 ?sr],
               [point sc 0 ?t0 ?sr, point sc 1 ?t0 ?er, point sc 0 ?t1 ?sr]]
            else []))
        (\<lambda>ps. if fst ?sr > 0 then
                   bind (push ps (fromPoints sc
                     [sc_start sc, point sc 0 ?t0 ?sr, point sc 0 ?t1 ?sr]))
                     (\<lambda>ps.
                   push ps (fromPoints sc
                     [point sc 0 ?t0 ?sr, point sc 1 ?t0 ?er, point sc 0 ?t1 ?sr]))
                 else Inr ps)"
    proof (cases "fst ?sr > 0")
      case True
      have "emits (sc_EPS sc)
        (centered sc [[sc_start sc, point sc 0 ?t0 ?sr, point sc 0 ?t1 ?sr]]
         @ centered sc [[point sc 0 ?t0 ?sr, point sc 1 ?t0 ?er, point sc 0 ?t1 ?sr]])
        (\<lambda>ps. bind (push ps (fromPoints sc
                     [sc_start sc, point sc 0 ?t0 ?sr, point sc 0 ?t1 ?sr]))
                     (\<lambda>ps.
                   push ps (fromPoints sc
                     [point sc 0 ?t0 ?sr, point sc 1 ?t0 ?er, point sc 0 ?t1 ?sr])))"
        by (intro emits_bind emits_fromPoints)
      then show ?thesis using True by (simp add: centered_def)
    next
      case False
      then show ?thesis by (simp add: centered_def emits_Nil)
    qed
    have b: "emits (sc_EPS sc)
        (centered sc (if fst ?er > 0 then
                [[sc_end sc, point sc 1 ?t1 ?er, point sc 1 ?t0 ?er],
                 [point sc 1 ?t0 ?er, point sc 1 ?t1 ?er, point sc 0 ?t1 ?sr]]
              else []))
        (\<lambda>ps. if fst ?er > 0 then
             bind (push ps (fromPoints sc
               [sc_end sc, point sc 1 ?t1 ?er, point sc 1 ?t0 ?er])) (\<lambda>ps.
             push ps (fromPoints sc
               [point sc 1 ?t0 ?er, point sc 1 ?t1 ?er, point sc 0 ?t1 ?sr]))
           else Inr ps)"
    proof (cases "fst ?er > 0")
      case True
      have "emits (sc_EPS sc)
        (centered sc [[sc_end sc, point sc 1 ?t1 ?er, point sc 1 ?t0 ?er]]
         @ centered sc [[point sc 1 ?t0 ?er, point sc 1 ?t1 ?er, point sc 0 ?t1 ?sr]])
        (\<lambda>ps. bind (push ps (fromPoints sc
               [sc_end sc, point sc 1 ?t1 ?er, point sc 1 ?t0 ?er])) (\<lambda>ps.
             push ps (fromPoints sc
               [point sc 1 ?t0 ?er, point sc 1 ?t1 ?er, point sc 0 ?t1 ?sr])))"
        by (intro emits_bind emits_fromPoints)
      then show ?thesis using True by (simp add: centered_def)
    next
      case False
      then show ?thesis by (simp add: centered_def emits_Nil)
    qed
    from emits_bind [OF a b] show ?thesis
      by (rule emits_cong)
         (use False in \<open>auto simp: slice_points_def slice_body_def Let_def centered_def\<close>)
  qed
qed

lemma slice_loop_emits:
  "emits (sc_EPS sc) (centered sc (concat (map (slice_points sc slices) [i ..< slices])))
     (slice_loop sc slices i)"
proof (induction sc slices i "[] :: poly3 list" rule: slice_loop.induct)
  case (1 sc slices i)
  show ?case
  proof (cases "i < slices")
    case False
    then have "slice_loop sc slices i = Inr"
      by (intro ext, subst slice_loop.simps) simp
    then show ?thesis using False by (simp add: emits_Nil centered_def)
  next
    case True
    have unf: "slice_loop sc slices i =
        (\<lambda>ps. bind (slice_body sc slices i ps) (slice_loop sc slices (i + 1)))"
      using True by (intro ext, subst slice_loop.simps) simp
    have "[i ..< slices] = i # [i + 1 ..< slices]"
      using True by (simp add: upt_conv_Cons)
    then have l: "centered sc (concat (map (slice_points sc slices) [i ..< slices]))
        = centered sc (slice_points sc slices i)
          @ centered sc (concat (map (slice_points sc slices) [i + 1 ..< slices]))"
      by (simp add: centered_def)
    from emits_bind [OF slice_body_emits "1.hyps" [OF True]]
    show ?thesis unfolding unf l .
  qed
qed

lemma end_walls_emits: "emits (sc_EPS sc) (centered sc (wall_points sc)) (end_walls sc)"
proof -
  let ?sr = "sc_startRadius sc" and ?er = "sc_endRadius sc"
  have "emits (sc_EPS sc)
      (centered sc [[sc_start sc, sc_end sc, point sc 0 0 ?sr]]
       @ centered sc [[point sc 0 0 ?sr, sc_end sc, point sc 1 0 ?er]]
       @ centered sc [[sc_start sc, point sc 0 1 ?sr, sc_end sc]]
       @ centered sc [[point sc 0 1 ?sr, point sc 1 1 ?er, sc_end sc]])
      (\<lambda>ps. bind (push ps (fromPoints sc [sc_start sc, sc_end sc, point sc 0 0 ?sr]))
           (\<lambda>ps.
         bind (push ps (fromPoints sc
                 [point sc 0 0 ?sr, sc_end sc, point sc 1 0 ?er])) (\<lambda>ps.
         bind (push ps (fromPoints sc [sc_start sc, point sc 0 1 ?sr, sc_end sc]))
           (\<lambda>ps.
         push ps (fromPoints sc
                 [point sc 0 1 ?sr, point sc 1 1 ?er, sc_end sc])))))"
    by (intro emits_bind emits_fromPoints)
  then show ?thesis
    by (rule emits_cong) (auto simp: wall_points_def end_walls_def Let_def centered_def)
qed

lemma sweep_scope_EPS [simp]: "sc_EPS (sweep_scope EPS options) = EPS"
  by (simp add: sweep_scope_def make_scope_def Let_def)

lemma after_validation_polygons:
  "after_validation EPS options =
     (if less_number (sweep_rotation options)
           (minangle_of EPS (assign (1, 1) (startRadius options))
              (assign (1, 1) (endRadius options)))
      then Inl InsufficientRotation
      else bind (polygons_fromPoints EPS (centered (sweep_scope EPS options)
                   (concat (map (slice_points (sweep_scope EPS options) (sweep_slices options))
                                [0 ..< sweep_slices options])
                    @ (if sweep_rotation options < pi * 2
                       then wall_points (sweep_scope EPS options) else []))))
             (\<lambda>polygons. Inr (geom3_create polygons)))"
proof -
  let ?sc = "sweep_scope EPS options"
  have w: "emits EPS
      (centered ?sc (if sweep_rotation options < pi * 2 then wall_points ?sc else []))
      (\<lambda>ps. if sweep_rotation options < pi * 2 then end_walls ?sc ps else Inr ps)"
    using end_walls_emits [of ?sc] by (simp add: emits_Nil centered_def)
  have s: "emits EPS
      (centered ?sc (concat (map (slice_points ?sc (sweep_slices options))
                                [0 ..< sweep_slices options])))
      (slice_loop ?sc (sweep_slices options) 0)"
    using slice_loop_emits [of ?sc "sweep_slices options" 0] by simp
  from emitsD [OF emits_bind [OF s w], of "[]"]
  have core: "bind (slice_loop ?sc (sweep_slices options) 0 [])
       (\<lambda>ps. if sweep_rotation options < pi * 2 then end_walls ?sc ps else Inr ps)
     = polygons_fromPoints EPS (centered ?sc
         (concat (map (slice_points ?sc (sweep_slices options)) [0 ..< sweep_slices options])
          @ (if sweep_rotation options < pi * 2 then wall_points ?sc else [])))"
    by (simp add: centered_append)
  have "after_validation EPS options =
     (if less_number (sweep_rotation options)
           (minangle_of EPS (assign (1, 1) (startRadius options))
              (assign (1, 1) (endRadius options)))
      then Inl InsufficientRotation
      else bind (bind (slice_loop ?sc (sweep_slices options) 0 [])
             (\<lambda>ps. if sweep_rotation options < pi * 2 then end_walls ?sc ps else Inr ps))
             (\<lambda>polygons. Inr (geom3_create polygons)))"
    by (simp add: after_validation_def bind_assoc)
  then show ?thesis by (simp only: core)
qed

subsection \<open>Evaluation at concrete configurations\<close>

lemma make_scope_frame:
  assumes "0 < h"
  shows "make_scope EPS c h sr er sa rot =
     \<lparr>sc_EPS = EPS, sc_center = c, sc_startRadius = sr, sc_endRadius = er,
      sc_startAngle = sa, sc_rotation = rot, sc_start = (0, 0, - (h / 2)),
      sc_end = (0, 0, h / 2), sc_ray = (0, 0, h), sc_axisX = (1, 0, 0),
      sc_axisY = (0, - 1, 0)\<rparr>"
proof -
  have z: "vec3_unit (0, 0, h) = (0, 0, 1)"
    using assms by (simp add: vec3_unit_def vec3_length_def)
  have r: "vec3_random (0, 0, 1) = (1, 0, 0)" by (simp add: vec3_random_def)
  have x: "vec3_unit (1, 0, 0) = (1, 0, 0)" by (simp add: vec3_unit_def vec3_length_def)
  have y: "vec3_unit (0, - 1, 0) = (0, - 1, 0)" by (simp add: vec3_unit_def vec3_length_def)
  show ?thesis
    by (simp add: make_scope_def Let_def vec3_fromValues_def z r x y)
qed

lemma vec3_length_le_iff: "0 \<le> e \<Longrightarrow> vec3_length v \<le> e \<longleftrightarrow> vec3_dot v v \<le> e * e"
proof -
  assume e: "0 \<le> e"
  have "sqrt (vec3_dot v v) \<le> e \<longleftrightarrow> sqrt (vec3_dot v v) \<le> sqrt (e * e)"
    using e by simp
  also have "\<dots> \<longleftrightarrow> vec3_dot v v \<le> e * e" by (rule real_sqrt_le_iff)
  finally show ?thesis by (simp add: vec3_length_def)
qed

lemma plane_fromPoints_first:
  assumes "0 \<le> EPS"
    and "EPS * EPS < vec3_dot (vec3_cross (vec3_subtract b a) (vec3_subtract c b))
                              (vec3_cross (vec3_subtract b a) (vec3_subtract c b))"
  shows "plane_fromPoints EPS (a # b # c # ps) \<noteq> None"
  using assms by (simp add: Let_def vec3_length_le_iff)

lemma poly3_fromPoints_first:
  assumes "0 \<le> EPS"
    and "EPS * EPS < vec3_dot (vec3_cross (vec3_subtract b a) (vec3_subtract c b))
                              (vec3_cross (vec3_subtract b a) (vec3_subtract c b))"
  shows "\<exists>p. poly3_fromPoints EPS (a # b # c # ps) = Inr p"
  using plane_fromPoints_first [OF assms, of ps]
  by (auto simp: poly3_fromPoints_def)

lemma polygons_fromPoints_ok:
  assumes "0 \<le> EPS" and "list_all (first_triple_ok EPS) L"
  shows "\<exists>ps. polygons_fromPoints EPS L = Inr ps"
  using assms(2)
proof (induction L)
  case Nil
  show ?case by simp
next
  case (Cons pts L)
  then obtain ps where ps: "polygons_fromPoints EPS L = Inr ps" by auto
  from Cons.prems obtain a b c rest where pts: "pts = a # b # c # rest"
    and ok: "EPS * EPS < vec3_dot (vec3_cross (vec3_subtract b a) (vec3_subtract c b))
                             (vec3_cross (vec3_subtract b a) (vec3_subtract c b))"
    by (auto simp: first_triple_ok_def split: list.splits)
  from poly3_fromPoints_first [OF assms(1) ok, of rest] obtain p
    where "poly3_fromPoints EPS pts = Inr p" by (auto simp: pts)
  then show ?case using ps by simp
qed

lemma trig_extra:
  "cos (3 * pi / 2) = 0" "sin (3 * pi / 2) = - 1"
  "cos (pi * 3 / 2) = 0" "sin (pi * 3 / 2) = - 1"
  "cos (pi * 2) = 1" "sin (pi * 2) = 0"
  using cos_3over2_pi sin_3over2_pi cos_two_pi sin_two_pi
  by (simp_all add: mult.commute)

lemma upt_numerals: "[0..<2] = [0, 1]" "[0..<4] = [0, 1, 2, 3]" "[1..<2] = [1]"
  "[1..<5] = [1, 2, 3, 4]"
  by (simp_all add: upt_rec)

lemma not_less_number_pi: "pi \<le> r \<Longrightarrow> \<not> less_number r (Math_acos x)"
  using arccos_ubound [of x] by (auto simp: less_number_def Math_acos_def)

lemma cylinderElliptic_eval:
  assumes "fields_valid EPS options"
    and "\<not> less_number (sweep_rotation options)
           (minangle_of EPS (assign (1, 1) (startRadius options))
              (assign (1, 1) (endRadius options)))"
    and "0 \<le> EPS"
    and "centered (sweep_scope EPS options)
           (concat (map (slice_points (sweep_scope EPS options) (sweep_slices options))
                        [0 ..< sweep_slices options])
            @ (if sweep_rotation options < pi * 2
               then wall_points (sweep_scope EPS options) else [])) = L"
    and "list_all (first_triple_ok EPS) L"
  shows "\<exists>mesh. cylinderElliptic EPS options = Inr mesh \<and> map vertices (polygons mesh) = L"
proof -
  from polygons_fromPoints_ok [OF assms(3,5)] obtain ps
    where ps: "polygons_fromPoints EPS L = Inr ps" by auto
  have "cylinderElliptic EPS options = Inr (geom3_create ps)"
    unfolding cylinderElliptic_valid [OF assms(1)] after_validation_polygons
    using assms(2) by (simp add: assms(4) ps)
  moreover have "map vertices (polygons (geom3_create ps)) = L"
    using polygons_fromPoints_vertices [OF ps] by (simp add: geom3_create_def)
  ultimately show ?thesis by blast
qed

lemma cylinderElliptic_Inr_vertices:
  assumes "cylinderElliptic EPS options = Inr mesh"
  shows "map vertices (polygons mesh) =
         centered (sweep_scope EPS options)
           (concat (map (slice_points (sweep_scope EPS options) (sweep_slices options))
                        [0 ..< sweep_slices options])
            @ (if sweep_rotation options < pi * 2
               then wall_points (sweep_scope EPS options) else []))"
proof -
  from cylinderElliptic_Inr_valid [OF assms] have v: "fields_valid EPS options" .
  from assms obtain ps where
    ps: "polygons_fromPoints EPS (centered (sweep_scope EPS options)
           (concat (map (slice_points (sweep_scope EPS options) (sweep_slices options))
                        [0 ..< sweep_slices options])
            @ (if sweep_rotation options < pi * 2
               then wall_points (sweep_scope EPS options) else []))) = Inr ps"
    and mesh: "mesh = geom3_create ps"
    unfolding cylinderElliptic_valid [OF v] after_validation_polygons
    by (auto simp: bind_eq_Inr split: if_splits)
  from polygons_fromPoints_vertices [OF ps] show ?thesis
    by (simp add: mesh geom3_create_def)
qed

text \<open>The cylinder of height 2, radius 1 and 4 segments.\<close>

lemma cylinder4_options:
  "cylinder EPS \<lparr>center = None, segments = Some 4, height = Some 2, startRadius = Some 1,
       startAngle = None, endRadius = Some 1, endAngle = None\<rparr>
   = cylinderElliptic EPS \<lparr>center = Some (Array [0, 0, 0]), segments = Some 4,
       height = Some 2, startRadius = Some (1, 1), startAngle = Some 0,
       endRadius = Some (1, 1), endAngle = Some (pi * 2)\<rparr>"
  by (simp add: cylinder_def)

lemma cylinder4_sweep:
  fixes EPS :: real
  defines "opts \<equiv> \<lparr>center = Some (Array [0, 0, 0]), segments = Some 4,
       height = Some 2, startRadius = Some (1, 1), startAngle = Some 0,
       endRadius = Some (1, 1), endAngle = Some (pi * 2)\<rparr>"
  shows "sweep_start opts = 0" and "sweep_rotation opts = pi * 2" and "sweep_slices opts = 4"
    and "sweep_scope EPS opts =
      \<lparr>sc_EPS = EPS, sc_center = [0, 0, 0], sc_startRadius = (1, 1), sc_endRadius = (1, 1),
       sc_startAngle = 0, sc_rotation = pi * 2, sc_start = (0, 0, - (2 / 2)),
       sc_end = (0, 0, 2 / 2), sc_ray = (0, 0, 2), sc_axisX = (1, 0, 0),
       sc_axisY = (0, - 1, 0)\<rparr>"
proof -
  show s: "sweep_start opts = 0" by (simp add: opts_def sweep_start_def js_mod_def)
  have e: "sweep_end opts = 0" by (simp add: opts_def sweep_end_def js_mod_self)
  show r: "sweep_rotation opts = pi * 2" by (simp add: sweep_rotation_def s e rotation_of_def)
  show "sweep_slices opts = 4"
    unfolding sweep_slices_def r by (simp add: slices_of_def opts_def)
  show "sweep_scope EPS opts =
      \<lparr>sc_EPS = EPS, sc_center = [0, 0, 0], sc_startRadius = (1, 1), sc_endRadius = (1, 1),
       sc_startAngle = 0, sc_rotation = pi * 2, sc_start = (0, 0, - (2 / 2)),
       sc_end = (0, 0, 2 / 2), sc_ray = (0, 0, 2), sc_axisX = (1, 0, 0),
       sc_axisY = (0, - 1, 0)\<rparr>"
    unfolding sweep_scope_def s r
    by (subst make_scope_frame) (simp_all add: opts_def center_array_def)
qed

lemma cylinder4_eval:
  assumes "0 \<le> EPS" and "EPS < 1"
  shows "\<exists>mesh. cylinder EPS \<lparr>center = None, segments = Some 4, height = Some 2,
             startRadius = Some 1, startAngle = None, endRadius = Some 1, endAngle = None\<rparr>
           = Inr mesh
         \<and> map vertices (polygons mesh) = cylinder4_points"
  unfolding cylinder4_options
proof (rule cylinderElliptic_eval [OF _ _ assms(1)])
  let ?O = "\<lparr>center = Some (Array [0, 0, 0]), segments = Some 4,
       height = Some 2, startRadius = Some (1, 1), startAngle = Some 0,
       endRadius = Some (1, 1), endAngle = Some (pi * 2)\<rparr>"
  show "fields_valid EPS ?O"
    using assms by (simp add: fields_valid_def center_valid_def center_array_def)
  show "\<not> less_number (sweep_rotation ?O)
           (minangle_of EPS (assign (1, 1) (startRadius ?O)) (assign (1, 1) (endRadius ?O)))"
    unfolding minangle_of_def Let_def cylinder4_sweep
    by (rule not_less_number_pi) simp
  show "centered (sweep_scope EPS ?O)
           (concat (map (slice_points (sweep_scope EPS ?O) (sweep_slices ?O))
                        [0 ..< sweep_slices ?O])
            @ (if sweep_rotation ?O < pi * 2
               then wall_points (sweep_scope EPS ?O) else [])) = cylinder4_points"
    unfolding cylinder4_sweep
    by (simp add: upt_numerals centered_def slice_points_def Let_def point_def
        vec3_fromArray_def trig_extra cylinder4_points_def)
  have "EPS * EPS < 1 * 1"
    using assms by (intro mult_strict_mono) simp_all
  then show "list_all (first_triple_ok EPS) cylinder4_points"
    by (simp add: cylinder4_points_def first_triple_ok_def)
qed

text \<open>
  C5 (amended). For a tolerance \<open>0 \<le> EPS < 1\<close>, the cylinder of height 2, start
  and end radius 1 and 4 segments is a mesh of exactly 12 polygons: for each of the 4
  slices one triangle of the start cap, one side quad and one triangle of the end cap
  (each cap is a fan of 4 triangles around the axis, not one 4-gon).
\<close>

theorem cylinder4_polygons:
  assumes "0 \<le> EPS" and "EPS < 1"
  shows "\<exists>mesh. cylinder EPS \<lparr>center = None, segments = Some 4, height = Some 2,
             startRadius = Some 1, startAngle = None, endRadius = Some 1, endAngle = None\<rparr>
           = Inr mesh
         \<and> map vertices (polygons mesh) = cylinder4_points
         \<and> map (length \<circ> vertices) (polygons mesh) = [3, 4, 3, 3, 4, 3, 3, 4, 3, 3, 4, 3]
         \<and> length (polygons mesh) = 12"
proof -
  from cylinder4_eval [OF assms] obtain mesh where
    m: "cylinder EPS \<lparr>center = None, segments = Some 4, height = Some 2,
             startRadius = Some 1, startAngle = None, endRadius = Some 1, endAngle = None\<rparr>
           = Inr mesh"
    and v: "map vertices (polygons mesh) = cylinder4_points"
    by blast
  have "map (length \<circ> vertices) (polygons mesh) = map length (map vertices (polygons mesh))"
    by simp
  also have "\<dots> = [3, 4, 3, 3, 4, 3, 3, 4, 3, 3, 4, 3]"
    unfolding v by (simp add: cylinder4_points_def)
  finally have c: "map (length \<circ> vertices) (polygons mesh)
                   = [3, 4, 3, 3, 4, 3, 3, 4, 3, 3, 4, 3]" .
  have "length (polygons mesh) = length (map vertices (polygons mesh))" by simp
  also have "\<dots> = 12" unfolding v by (simp add: cylinder4_points_def)
  finally have l: "length (polygons mesh) = 12" .
  show ?thesis by (rule exI [of _ mesh]) (simp only: m v c l simp_thms)
qed

theorem cylinder4_polygons_witness:
  "\<exists>mesh. cylinder (1 / 100000) \<lparr>center = None, segments = Some 4, height = Some 2,
             startRadius = Some 1, startAngle = None, endRadius = Some 1, endAngle = None\<rparr>
           = Inr mesh
         \<and> map (length \<circ> vertices) (polygons mesh) = [3, 4, 3, 3, 4, 3, 3, 4, 3, 3, 4, 3]
         \<and> length (polygons mesh) = 12"
proof -
  from cylinder4_polygons [of "1 / 100000"] obtain mesh where
    "cylinder (1 / 100000) \<lparr>center = None, segments = Some 4, height = Some 2,
             startRadius = Some 1, startAngle = None, endRadius = Some 1, endAngle = None\<rparr>
           = Inr mesh"
    "map (length \<circ> vertices) (polygons mesh) = [3, 4, 3, 3, 4, 3, 3, 4, 3, 3, 4, 3]"
    "length (polygons mesh) = 12"
    by auto
  then show ?thesis by (intro exI [of _ mesh]) (simp only: simp_thms)
qed

theorem cylinder4_six_polygons_counterexample:
  "\<not> (\<exists>mesh. cylinder (1 / 100000) \<lparr>center = None, segments = Some 4, height = Some 2,
             startRadius = Some 1, startAngle = None, endRadius = Some 1, endAngle = None\<rparr>
           = Inr mesh
         \<and> length (polygons mesh) = 6)"
proof
  assume "\<exists>mesh. cylinder (1 / 100000) \<lparr>center = None, segments = Some 4, height = Some 2,
             startRadius = Some 1, startAngle = None, endRadius = Some 1, endAngle = None\<rparr>
           = Inr mesh
         \<and> length (polygons mesh) = 6"
  then obtain mesh where
    m: "cylinder (1 / 100000) \<lparr>center = None, segments = Some 4, height = Some 2,
             startRadius = Some 1, startAngle = None, endRadius = Some 1, endAngle = None\<rparr>
           = Inr mesh"
    and six: "length (polygons mesh) = 6"
    by blast
  from cylinder4_eval [of "1 / 100000"] m
  have "map vertices (polygons mesh) = cylinder4_points" by auto
  then have "length (map vertices (polygons mesh)) = 12"
    by (simp add: cylinder4_points_def)
  with six show False by simp
qed

text \<open>The sweep.\<close>

lemma sweep_range:
  assumes "fields_valid EPS options"
  shows "0 \<le> sweep_start options" "sweep_start options < pi * 2"
    "0 \<le> sweep_end options" "sweep_end options < pi * 2"
proof -
  have a: "0 \<le> assign 0 (startAngle options)" "0 \<le> assign (pi * 2) (endAngle options)"
    using assms by (simp_all add: fields_valid_def)
  have p: "0 < pi * 2" by simp
  from js_mod_range [OF a(1) p] js_mod_range [OF a(2) p]
  show "0 \<le> sweep_start options" "sweep_start options < pi * 2"
    "0 \<le> sweep_end options" "sweep_end options < pi * 2"
    by (simp_all add: sweep_start_def sweep_end_def)
qed

lemma sweep_rotation_cases:
  assumes "fields_valid EPS options"
  shows "sweep_start options = sweep_end options \<Longrightarrow> sweep_rotation options = pi * 2"
    and "sweep_start options \<noteq> sweep_end options \<Longrightarrow> sweep_rotation options < pi * 2"
    and "sweep_start options \<noteq> sweep_end options \<Longrightarrow>
         cos (sweep_rotation options + sweep_start options) = cos (sweep_end options)
         \<and> sin (sweep_rotation options + sweep_start options) = sin (sweep_end options)"
proof -
  have per: "\<And>x. cos (x + pi * 2) = cos x" "\<And>x. sin (x + pi * 2) = sin x"
    using cos_periodic sin_periodic by (simp_all add: mult.commute)
  show "sweep_start options = sweep_end options \<Longrightarrow> sweep_rotation options = pi * 2"
    by (simp add: sweep_rotation_def rotation_of_def Let_def)
  show "sweep_start options \<noteq> sweep_end options \<Longrightarrow> sweep_rotation options < pi * 2"
    using sweep_range [OF assms]
    by (auto simp: sweep_rotation_def rotation_of_def Let_def)
  show "sweep_start options \<noteq> sweep_end options \<Longrightarrow>
         cos (sweep_rotation options + sweep_start options) = cos (sweep_end options)
         \<and> sin (sweep_rotation options + sweep_start options) = sin (sweep_end options)"
    using sweep_range [OF assms]
    by (auto simp: sweep_rotation_def rotation_of_def Let_def per)
qed

subsection \<open>The walls of a partial sweep\<close>

lemma cylinderElliptic_Inr_parts:
  assumes "cylinderElliptic EPS options = Inr mesh"
  shows "\<exists>sides. slice_loop (sweep_scope EPS options) (sweep_slices options) 0 [] = Inr sides
           \<and> (if sweep_rotation options < pi * 2
              then \<exists>walls. end_walls (sweep_scope EPS options) [] = Inr walls
                     \<and> polygons mesh = sides @ walls
                     \<and> map vertices walls
                         = centered (sweep_scope EPS options)
                             (wall_points (sweep_scope EPS options))
              else polygons mesh = sides)"
proof -
  let ?sc = "sweep_scope EPS options"
  from cylinderElliptic_Inr_valid [OF assms] have v: "fields_valid EPS options" .
  have "bind (slice_loop ?sc (sweep_slices options) 0 [])
          (\<lambda>polygons.
             bind (if sweep_rotation options < pi * 2
                   then end_walls ?sc polygons else Inr polygons)
               (\<lambda>polygons. Inr (geom3_create polygons))) = Inr mesh"
    using assms unfolding cylinderElliptic_valid [OF v] after_validation_def
    by (simp split: if_splits)
  then obtain sides where
    sides: "slice_loop ?sc (sweep_slices options) 0 [] = Inr sides"
    and r: "bind (if sweep_rotation options < pi * 2
                   then end_walls ?sc sides else Inr sides)
               (\<lambda>polygons. Inr (geom3_create polygons)) = Inr mesh"
    unfolding bind_eq_Inr by blast
  from r obtain ps where
    ps: "(if sweep_rotation options < pi * 2 then end_walls ?sc sides else Inr sides) = Inr ps"
    and mesh: "Inr (geom3_create ps) = (Inr mesh :: error + geom3)"
    unfolding bind_eq_Inr by blast
  from mesh have mesh: "mesh = geom3_create ps" by simp
  show ?thesis
  proof (cases "sweep_rotation options < pi * 2")
    case False
    then show ?thesis using sides ps mesh by (auto simp: geom3_create_def)
  next
    case True
    with ps have "end_walls ?sc sides = Inr ps" by simp
    then obtain walls where
      w: "polygons_fromPoints EPS (centered ?sc (wall_points ?sc)) = Inr walls"
      and p: "ps = sides @ walls"
      unfolding emitsD [OF end_walls_emits] by (auto simp: bind_eq_Inr)
    have "end_walls ?sc [] = Inr walls"
      unfolding emitsD [OF end_walls_emits] using w by simp
    moreover have "map vertices walls = centered ?sc (wall_points ?sc)"
      by (rule polygons_fromPoints_vertices [OF w])
    ultimately show ?thesis using True sides p mesh by (auto simp: geom3_create_def)
  qed
qed

lemma angular_plane_point:
  assumes "sc_start sc = (0, 0, z0)" and "sc_ray sc = (0, 0, h)"
    and "fst r = snd r"
    and "cos (slice * sc_rotation sc + sc_startAngle sc) = cos a"
    and "sin (slice * sc_rotation sc + sc_startAngle sc) = sin a"
  shows "angular_plane sc a (vec3_add (point sc stack slice r) (vec3_fromArray (sc_center sc)))"
  unfolding angular_plane_def point_def Let_def assms(4,5)
  by (cases "sc_axisX sc"; cases "sc_axisY sc"; cases "vec3_fromArray (sc_center sc)")
     (simp add: assms(1,2,3) algebra_simps)

lemma angular_plane_axis:
  assumes "sc_start sc = (0, 0, z0)" and "sc_ray sc = (0, 0, h)" and "p = (0, 0, z)"
  shows "angular_plane sc a (vec3_add p (vec3_fromArray (sc_center sc)))"
  by (cases "sc_axisX sc"; cases "sc_axisY sc"; cases "vec3_fromArray (sc_center sc)")
     (simp add: angular_plane_def assms algebra_simps)

lemma sweep_scope_fields:
  "sc_start (sweep_scope EPS options) = (0, 0, - (assign 2 (height options) / 2))"
  "sc_end (sweep_scope EPS options) = (0, 0, assign 2 (height options) / 2)"
  "sc_ray (sweep_scope EPS options) = (0, 0, assign 2 (height options))"
  "sc_startRadius (sweep_scope EPS options) = assign (1, 1) (startRadius options)"
  "sc_endRadius (sweep_scope EPS options) = assign (1, 1) (endRadius options)"
  "sc_startAngle (sweep_scope EPS options) = sweep_start options"
  "sc_rotation (sweep_scope EPS options) = sweep_rotation options"
  by (simp_all add: sweep_scope_def make_scope_def Let_def vec3_fromValues_def)

text \<open>
  C4 (amended). When the elliptic cylinder returns a mesh: if the two angles are equal
  after the reduction modulo \<open>2 * pi\<close> (as for \<open>0\<close> and \<open>2 * pi\<close>, or
  \<open>0\<close> and \<open>0\<close>), the rotation is the full \<open>2 * pi\<close> and the mesh is what the
  loop over the slices made, with no wall polygon; otherwise the rotation is less than
  \<open>2 * pi\<close> and the mesh is the polygons of the slices followed by exactly the four
  wall polygons of lines 109-112. When each end has equal X and Y radii (as the cylinder
  with scalar radii always has), the first two walls lie in the angular boundary plane
  at the start angle and the last two in the one at the end angle.
\<close>

theorem sweep_end_walls:
  assumes "cylinderElliptic EPS options = Inr mesh"
  shows "(sweep_start options = sweep_end options \<longrightarrow>
            sweep_rotation options = pi * 2
          \<and> slice_loop (sweep_scope EPS options) (sweep_slices options) 0 []
              = Inr (polygons mesh))
       \<and> (sweep_start options \<noteq> sweep_end options \<longrightarrow>
            sweep_rotation options < pi * 2
          \<and> (\<exists>sides w1 w2 w3 w4.
               slice_loop (sweep_scope EPS options) (sweep_slices options) 0 [] = Inr sides
             \<and> end_walls (sweep_scope EPS options) [] = Inr [w1, w2, w3, w4]
             \<and> polygons mesh = sides @ [w1, w2, w3, w4]
             \<and> (fst (assign (1, 1) (startRadius options)) = snd (assign (1, 1) (startRadius options))
                \<and> fst (assign (1, 1) (endRadius options)) = snd (assign (1, 1) (endRadius options))
                \<longrightarrow>
                  (\<forall>v \<in> set (vertices w1) \<union> set (vertices w2).
                      angular_plane (sweep_scope EPS options) (sweep_start options) v)
                \<and> (\<forall>v \<in> set (vertices w3) \<union> set (vertices w4).
                      angular_plane (sweep_scope EPS options) (sweep_end options) v))))"
proof -
  let ?sc = "sweep_scope EPS options"
  let ?sr = "assign (1, 1) (startRadius options)" and ?er = "assign (1, 1) (endRadius options)"
  from cylinderElliptic_Inr_valid [OF assms] have v: "fields_valid EPS options" .
  note rot = sweep_rotation_cases [OF v]
  from cylinderElliptic_Inr_parts [OF assms] obtain sides where
    sides: "slice_loop ?sc (sweep_slices options) 0 [] = Inr sides"
    and rest: "if sweep_rotation options < pi * 2
              then \<exists>walls. end_walls ?sc [] = Inr walls
                     \<and> polygons mesh = sides @ walls
                     \<and> map vertices walls = centered ?sc (wall_points ?sc)
              else polygons mesh = sides"
    by blast
  have full: "sweep_start options = sweep_end options \<longrightarrow>
            sweep_rotation options = pi * 2
          \<and> slice_loop ?sc (sweep_slices options) 0 [] = Inr (polygons mesh)"
    using rot(1) sides rest by auto
  have partial: "sweep_rotation options < pi * 2
          \<and> (\<exists>sides w1 w2 w3 w4.
               slice_loop ?sc (sweep_slices options) 0 [] = Inr sides
             \<and> end_walls ?sc [] = Inr [w1, w2, w3, w4]
             \<and> polygons mesh = sides @ [w1, w2, w3, w4]
             \<and> (fst ?sr = snd ?sr \<and> fst ?er = snd ?er \<longrightarrow>
                  (\<forall>v \<in> set (vertices w1) \<union> set (vertices w2).
                      angular_plane ?sc (sweep_start options) v)
                \<and> (\<forall>v \<in> set (vertices w3) \<union> set (vertices w4).
                      angular_plane ?sc (sweep_end options) v)))"
    if ne: "sweep_start options \<noteq> sweep_end options"
  proof -
    from rot(2) [OF ne] have lt: "sweep_rotation options < pi * 2" .
    with rest obtain walls where
      w: "end_walls ?sc [] = Inr walls" and m: "polygons mesh = sides @ walls"
      and vs: "map vertices walls = centered ?sc (wall_points ?sc)"
      by auto
    from vs obtain w1 w2 w3 w4 where
      walls: "walls = [w1, w2, w3, w4]"
      and v1: "vertices w1 = map (\<lambda>p. vec3_add p (vec3_fromArray (sc_center ?sc)))
                 [sc_start ?sc, sc_end ?sc, point ?sc 0 0 (sc_startRadius ?sc)]"
      and v2: "vertices w2 = map (\<lambda>p. vec3_add p (vec3_fromArray (sc_center ?sc)))
                 [point ?sc 0 0 (sc_startRadius ?sc), sc_end ?sc, point ?sc 1 0 (sc_endRadius ?sc)]"
      and v3: "vertices w3 = map (\<lambda>p. vec3_add p (vec3_fromArray (sc_center ?sc)))
                 [sc_start ?sc, point ?sc 0 1 (sc_startRadius ?sc), sc_end ?sc]"
      and v4: "vertices w4 = map (\<lambda>p. vec3_add p (vec3_fromArray (sc_center ?sc)))
                 [point ?sc 0 1 (sc_startRadius ?sc), point ?sc 1 1 (sc_endRadius ?sc), sc_end ?sc]"
      unfolding centered_def wall_points_def by (auto simp: map_eq_Cons_conv)
    note f = sweep_scope_fields [of EPS options]
    have planes: "(\<forall>v \<in> set (vertices w1) \<union> set (vertices w2).
                      angular_plane ?sc (sweep_start options) v)
                \<and> (\<forall>v \<in> set (vertices w3) \<union> set (vertices w4).
                      angular_plane ?sc (sweep_end options) v)"
      if c: "fst ?sr = snd ?sr" "fst ?er = snd ?er"
    proof -
      have ax: "\<And>a. angular_plane ?sc a (vec3_add (sc_start ?sc) (vec3_fromArray (sc_center ?sc)))"
               "\<And>a. angular_plane ?sc a (vec3_add (sc_end ?sc) (vec3_fromArray (sc_center ?sc)))"
        by (rule angular_plane_axis [OF f(1) f(3) f(1)])
           (rule angular_plane_axis [OF f(1) f(3) f(2)])
      have s0: "\<And>stack. angular_plane ?sc (sweep_start options)
                  (vec3_add (point ?sc stack 0 ?sr) (vec3_fromArray (sc_center ?sc)))"
               "\<And>stack. angular_plane ?sc (sweep_start options)
                  (vec3_add (point ?sc stack 0 ?er) (vec3_fromArray (sc_center ?sc)))"
        by (rule angular_plane_point [OF f(1) f(3)], simp_all add: f c)+
      have s1: "\<And>stack. angular_plane ?sc (sweep_end options)
                  (vec3_add (point ?sc stack 1 ?sr) (vec3_fromArray (sc_center ?sc)))"
               "\<And>stack. angular_plane ?sc (sweep_end options)
                  (vec3_add (point ?sc stack 1 ?er) (vec3_fromArray (sc_center ?sc)))"
        using rot(3) [OF ne]
        by - (rule angular_plane_point [OF f(1) f(3)], simp_all add: f c)+
      show ?thesis
        unfolding v1 v2 v3 v4 using ax s0 s1 by (simp add: f)
    qed
    show ?thesis
      using lt sides w m planes unfolding walls by blast
  qed
  from full partial show ?thesis by blast
qed

lemma halfcylinder_sweep:
  fixes EPS :: real
  defines "opts \<equiv> \<lparr>center = None, segments = Some 4, height = None, startRadius = None,
       startAngle = None, endRadius = None, endAngle = Some pi\<rparr>"
  shows "sweep_start opts = 0" and "sweep_end opts = pi" and "sweep_rotation opts = pi"
    and "sweep_slices opts = 2"
    and "sweep_scope EPS opts =
      \<lparr>sc_EPS = EPS, sc_center = [0, 0, 0], sc_startRadius = (1, 1), sc_endRadius = (1, 1),
       sc_startAngle = 0, sc_rotation = pi, sc_start = (0, 0, - (2 / 2)),
       sc_end = (0, 0, 2 / 2), sc_ray = (0, 0, 2), sc_axisX = (1, 0, 0),
       sc_axisY = (0, - 1, 0)\<rparr>"
proof -
  show s: "sweep_start opts = 0" by (simp add: opts_def sweep_start_def js_mod_def)
  show e: "sweep_end opts = pi" by (simp add: opts_def sweep_end_def js_mod_small)
  show r: "sweep_rotation opts = pi" by (simp add: sweep_rotation_def s e rotation_of_def)
  show "sweep_slices opts = 2"
    unfolding sweep_slices_def r by (simp add: slices_of_def opts_def)
  show "sweep_scope EPS opts =
      \<lparr>sc_EPS = EPS, sc_center = [0, 0, 0], sc_startRadius = (1, 1), sc_endRadius = (1, 1),
       sc_startAngle = 0, sc_rotation = pi, sc_start = (0, 0, - (2 / 2)),
       sc_end = (0, 0, 2 / 2), sc_ray = (0, 0, 2), sc_axisX = (1, 0, 0),
       sc_axisY = (0, - 1, 0)\<rparr>"
    unfolding sweep_scope_def s r
    by (subst make_scope_frame) (simp_all add: opts_def center_array_def)
qed

lemma halfcylinder_eval:
  "\<exists>mesh. cylinderElliptic (1 / 100000) \<lparr>center = None, segments = Some 4, height = None,
             startRadius = None, startAngle = None, endRadius = None, endAngle = Some pi\<rparr>
           = Inr mesh
         \<and> map vertices (polygons mesh) = halfcylinder_points"
proof (rule cylinderElliptic_eval)
  let ?O = "\<lparr>center = None, segments = Some 4, height = None, startRadius = None,
       startAngle = None, endRadius = None, endAngle = Some pi\<rparr>
       :: (real \<times> real) cylinder_options"
  show "fields_valid (1 / 100000) ?O"
    by (simp add: fields_valid_def center_valid_def center_array_def)
  show "\<not> less_number (sweep_rotation ?O)
           (minangle_of (1 / 100000) (assign (1, 1) (startRadius ?O))
              (assign (1, 1) (endRadius ?O)))"
    unfolding minangle_of_def Let_def halfcylinder_sweep
    by (rule not_less_number_pi) simp
  show "(0::real) \<le> 1 / 100000" by simp
  show "centered (sweep_scope (1 / 100000) ?O)
           (concat (map (slice_points (sweep_scope (1 / 100000) ?O) (sweep_slices ?O))
                        [0 ..< sweep_slices ?O])
            @ (if sweep_rotation ?O < pi * 2
               then wall_points (sweep_scope (1 / 100000) ?O) else [])) = halfcylinder_points"
    unfolding halfcylinder_sweep
    by (simp add: upt_numerals centered_def slice_points_def wall_points_def Let_def point_def
        vec3_fromArray_def trig_extra halfcylinder_points_def)
  show "list_all (first_triple_ok (1 / 100000)) halfcylinder_points"
    by (simp add: halfcylinder_points_def first_triple_ok_def)
qed

text \<open>Wedges of an eighth of a turn with 4 segments: no slice, the four walls only.\<close>

lemma not_less_number_quarter:
  "\<not> less_number (pi / 4) (minangle_of (1 / 100000) (1, 1) (1, 1))"
  "\<not> less_number (pi / 4) (minangle_of (1 / 100000) (2, 1) (1, 2))"
proof -
  let ?q = "(1 * 1 + 1 * 1 - (1 / 100000) * (1 / 100000)) / (2 * 1 * 1) :: real"
  have "(4 / 3 :: real) \<le> sqrt 2" by (rule real_le_rsqrt) (simp add: power2_eq_square)
  then have "1 / sqrt 2 \<le> (3 / 4 :: real)" by (simp add: field_simps)
  moreover have "(3 / 4 :: real) \<le> ?q" by simp
  ultimately have l: "1 / sqrt 2 \<le> ?q" by linarith
  have u: "?q \<le> 1" by simp
  have "0 \<le> 1 / sqrt 2" by simp
  then have "- 1 \<le> 1 / sqrt 2" by linarith
  from arccos_le_arccos [OF this l u] have "arccos ?q \<le> pi / 4"
    by (simp add: arccos_one_over_sqrt_2)
  then have "\<not> less_number (pi / 4) (Math_acos ?q)"
    by (auto simp: less_number_def Math_acos_def)
  then show "\<not> less_number (pi / 4) (minangle_of (1 / 100000) (1, 1) (1, 1))"
    "\<not> less_number (pi / 4) (minangle_of (1 / 100000) (2, 1) (1, 2))"
    by (simp_all add: minangle_of_def Let_def)
qed

lemma wedge_sweep:
  fixes EPS :: real and sr er :: "real \<times> real"
  defines "opts \<equiv> \<lparr>center = None, segments = Some 4, height = None, startRadius = Some sr,
       startAngle = None, endRadius = Some er, endAngle = Some (pi / 4)\<rparr>"
  shows "sweep_start opts = 0" and "sweep_end opts = pi / 4" and "sweep_rotation opts = pi / 4"
    and "sweep_slices opts = 0"
    and "sweep_scope EPS opts =
      \<lparr>sc_EPS = EPS, sc_center = [0, 0, 0], sc_startRadius = sr, sc_endRadius = er,
       sc_startAngle = 0, sc_rotation = pi / 4, sc_start = (0, 0, - (2 / 2)),
       sc_end = (0, 0, 2 / 2), sc_ray = (0, 0, 2), sc_axisX = (1, 0, 0),
       sc_axisY = (0, - 1, 0)\<rparr>"
proof -
  show s: "sweep_start opts = 0" by (simp add: opts_def sweep_start_def js_mod_def)
  show e: "sweep_end opts = pi / 4" by (simp add: opts_def sweep_end_def js_mod_small)
  show r: "sweep_rotation opts = pi / 4" by (simp add: sweep_rotation_def s e rotation_of_def)
  show "sweep_slices opts = 0"
    unfolding sweep_slices_def r by (simp add: slices_of_def opts_def)
  show "sweep_scope EPS opts =
      \<lparr>sc_EPS = EPS, sc_center = [0, 0, 0], sc_startRadius = sr, sc_endRadius = er,
       sc_startAngle = 0, sc_rotation = pi / 4, sc_start = (0, 0, - (2 / 2)),
       sc_end = (0, 0, 2 / 2), sc_ray = (0, 0, 2), sc_axisX = (1, 0, 0),
       sc_axisY = (0, - 1, 0)\<rparr>"
    unfolding sweep_scope_def s r
    by (subst make_scope_frame) (simp_all add: opts_def center_array_def)
qed

lemma wedge_eval:
  "\<exists>mesh. cylinderElliptic (1 / 100000) \<lparr>center = None, segments = Some 4, height = None,
             startRadius = Some (1, 1), startAngle = None, endRadius = Some (1, 1),
             endAngle = Some (pi / 4)\<rparr>
           = Inr mesh
         \<and> map vertices (polygons mesh) = wedge_points"
proof (rule cylinderElliptic_eval)
  let ?O = "\<lparr>center = None, segments = Some 4, height = None, startRadius = Some (1, 1),
       startAngle = None, endRadius = Some (1, 1), endAngle = Some (pi / 4)\<rparr>
       :: (real \<times> real) cylinder_options"
  show "fields_valid (1 / 100000) ?O"
    by (simp add: fields_valid_def center_valid_def center_array_def)
  show "\<not> less_number (sweep_rotation ?O)
           (minangle_of (1 / 100000) (assign (1, 1) (startRadius ?O))
              (assign (1, 1) (endRadius ?O)))"
    unfolding wedge_sweep using not_less_number_quarter(1) by simp
  show "(0::real) \<le> 1 / 100000" by simp
  show "centered (sweep_scope (1 / 100000) ?O)
           (concat (map (slice_points (sweep_scope (1 / 100000) ?O) (sweep_slices ?O))
                        [0 ..< sweep_slices ?O])
            @ (if sweep_rotation ?O < pi * 2
               then wall_points (sweep_scope (1 / 100000) ?O) else [])) = wedge_points"
    unfolding wedge_sweep
    by (simp add: centered_def wall_points_def Let_def point_def
        vec3_fromArray_def cos_45 sin_45 wedge_points_def)
  show "list_all (first_triple_ok (1 / 100000)) wedge_points"
    by (simp add: wedge_points_def first_triple_ok_def)
qed

lemma elliptic_wedge_eval:
  "\<exists>mesh. cylinderElliptic (1 / 100000) \<lparr>center = None, segments = Some 4, height = None,
             startRadius = Some (2, 1), startAngle = None, endRadius = Some (1, 2),
             endAngle = Some (pi / 4)\<rparr>
           = Inr mesh
         \<and> map vertices (polygons mesh) = elliptic_wedge_points"
proof (rule cylinderElliptic_eval)
  let ?O = "\<lparr>center = None, segments = Some 4, height = None, startRadius = Some (2, 1),
       startAngle = None, endRadius = Some (1, 2), endAngle = Some (pi / 4)\<rparr>
       :: (real \<times> real) cylinder_options"
  show "fields_valid (1 / 100000) ?O"
    by (simp add: fields_valid_def center_valid_def center_array_def)
  show "\<not> less_number (sweep_rotation ?O)
           (minangle_of (1 / 100000) (assign (1, 1) (startRadius ?O))
              (assign (1, 1) (endRadius ?O)))"
    unfolding wedge_sweep using not_less_number_quarter(2) by simp
  show "(0::real) \<le> 1 / 100000" by simp
  show "centered (sweep_scope (1 / 100000) ?O)
           (concat (map (slice_points (sweep_scope (1 / 100000) ?O) (sweep_slices ?O))
                        [0 ..< sweep_slices ?O])
            @ (if sweep_rotation ?O < pi * 2
               then wall_points (sweep_scope (1 / 100000) ?O) else [])) = elliptic_wedge_points"
    unfolding wedge_sweep
    by (simp add: centered_def wall_points_def Let_def point_def
        vec3_fromArray_def cos_45 sin_45 elliptic_wedge_points_def)
  show "list_all (first_triple_ok (1 / 100000)) elliptic_wedge_points"
    by (simp add: elliptic_wedge_points_def first_triple_ok_def)
qed

lemma mesh_edges_vertices:
  "mesh_edges g =
   concat (map (\<lambda>vs. case vs of [] \<Rightarrow> [] | v # vs' \<Rightarrow> edges_from v (v # vs'))
               (map vertices (polygons g)))"
  by (simp add: mesh_edges_def polygon_edges_def [abs_def] comp_def)

subsection \<open>Sweeps without a slice\<close>

lemma zero_slices_walls_only:
  assumes "cylinderElliptic EPS options = Inr mesh"
    and "of_int (assign 12 (segments options)) * (sweep_rotation options / (pi * 2)) < 1"
  shows "map vertices (polygons mesh)
         = centered (sweep_scope EPS options) (wall_points (sweep_scope EPS options))
         \<and> length (polygons mesh) = 4"
proof -
  from cylinderElliptic_Inr_valid [OF assms(1)] have v: "fields_valid EPS options" .
  have z: "sweep_slices options = 0"
  proof -
    have "\<lfloor>of_int (assign 12 (segments options)) * (sweep_rotation options / (pi * 2))\<rfloor> < 1"
      using assms(2) by (simp add: floor_less_iff)
    then show ?thesis by (simp add: sweep_slices_def slices_of_def)
  qed
  have s4: "4 \<le> (of_int (assign 12 (segments options)) :: real)"
    using v by (simp add: fields_valid_def)
  have "sweep_rotation options < pi * 2"
  proof (rule ccontr)
    assume "\<not> sweep_rotation options < pi * 2"
    then have "1 \<le> sweep_rotation options / (pi * 2)" by (simp add: field_simps)
    with s4 have "4 * 1 \<le> of_int (assign 12 (segments options))
                              * (sweep_rotation options / (pi * 2))"
      by (intro mult_mono) simp_all
    with assms(2) show False by linarith
  qed
  with cylinderElliptic_Inr_vertices [OF assms(1)] z
  have m: "map vertices (polygons mesh)
         = centered (sweep_scope EPS options) (wall_points (sweep_scope EPS options))"
    by simp
  have "length (polygons mesh) = length (map vertices (polygons mesh))" by simp
  also have "\<dots> = 4" unfolding m by (simp add: centered_def wall_points_def)
  finally show ?thesis using m by simp
qed

lemma vec3_add_right_cancel: "vec3_add p c = vec3_add q c \<longleftrightarrow> p = q"
  by (cases p; cases q; cases c) simp

lemma sweep_scope_frame:
  assumes "0 < assign 2 (height options)"
  shows "sc_axisX (sweep_scope EPS options) = (1, 0, 0)"
    and "sc_axisY (sweep_scope EPS options) = (0, - 1, 0)"
  unfolding sweep_scope_def by (simp_all add: make_scope_frame [OF assms])

lemma sweep_point:
  assumes "0 < assign 2 (height options)"
  shows "point (sweep_scope EPS options) stack slice r =
         (fst r * cos (slice * sweep_rotation options + sweep_start options),
          - (snd r * sin (slice * sweep_rotation options + sweep_start options)),
          stack * assign 2 (height options) - assign 2 (height options) / 2)"
  by (simp add: point_def Let_def sweep_scope_fields sweep_scope_frame [OF assms])

lemma cos_sin_not_both_zero:
  fixes a b t :: real
  assumes "0 < a" and "0 < b"
  shows "(a * cos t, - (b * sin t)) \<noteq> (0, 0)"
proof -
  have "cos t \<noteq> 0 \<or> sin t \<noteq> 0"
  proof (rule ccontr)
    assume "\<not> (cos t \<noteq> 0 \<or> sin t \<noteq> 0)"
    then have c: "cos t = 0" "sin t = 0" by simp_all
    have "(sin t)\<^sup>2 + (cos t)\<^sup>2 = 1" by simp
    then show False unfolding c by simp
  qed
  then show ?thesis using assms by auto
qed

lemma sweep_rotation_pos:
  assumes "fields_valid EPS options"
  shows "0 < sweep_rotation options"
  using sweep_range [OF assms]
  by (auto simp: sweep_rotation_def rotation_of_def Let_def)

lemma cos_sin_shift:
  assumes "0 < r" and "r < pi * 2"
  shows "\<not> (cos (r + s) = cos s \<and> sin (r + s) = sin s)"
proof
  assume "cos (r + s) = cos s \<and> sin (r + s) = sin s"
  then have "sin (r + s) = sin s \<and> cos (r + s) = cos s" by simp
  then obtain n :: int where "r + s = s + 2 * pi * of_int n"
    unfolding sin_cos_eq_iff by blast
  then have r: "r = of_int n * (2 * pi)" by simp
  with assms(1) have "0 < of_int n * (2 * pi)" by simp
  then have "0 < n" by (simp add: zero_less_mult_iff)
  then have "1 \<le> (of_int n :: real)" by simp
  then have "1 * (2 * pi) \<le> of_int n * (2 * pi)" by (intro mult_right_mono) simp_all
  with r assms(2) show False by simp
qed

text \<open>
  C1 (the failing case). A sweep with \<open>segments * rotation / (2 * pi) < 1\<close> has
  \<open>slices = 0\<close>: when the elliptic cylinder returns a mesh for it (with a positive
  tolerance), the mesh is the four walls of lines 109-112 alone, and it is not a closed
  2-manifold boundary: the edge of the first wall from its point on the start ellipse
  to the start of the axis has no reverse edge in the mesh. So it is for 4 segments,
  radii \<open>[1, 1]\<close> and a sweep from \<open>0\<close> to \<open>pi / 4\<close>.
\<close>

theorem zero_slices_open:
  assumes "0 < EPS" and "cylinderElliptic EPS options = Inr mesh"
    and "of_int (assign 12 (segments options)) * (sweep_rotation options / (pi * 2)) < 1"
  shows "length (polygons mesh) = 4 \<and> \<not> closed_manifold mesh"
proof -
  let ?sc = "sweep_scope EPS options"
  let ?h = "assign 2 (height options)"
  let ?sr = "assign (1, 1) (startRadius options)" and ?er = "assign (1, 1) (endRadius options)"
  let ?c = "vec3_fromArray (sc_center ?sc)"
  let ?S = "sc_start ?sc" and ?E = "sc_end ?sc"
  let ?P00 = "point ?sc 0 0 ?sr" and ?P10 = "point ?sc 1 0 ?er"
  let ?P01 = "point ?sc 0 1 ?sr" and ?P11 = "point ?sc 1 1 ?er"
  from cylinderElliptic_Inr_valid [OF assms(2)] have v: "fields_valid EPS options" .
  have h: "0 < ?h" using v assms(1) by (simp add: fields_valid_def)
  have r: "0 < fst ?sr" "0 < snd ?sr" "0 < fst ?er" "0 < snd ?er"
    using v by (simp_all add: fields_valid_def)
  from zero_slices_walls_only [OF assms(2,3)] have
    m: "map vertices (polygons mesh) = centered ?sc (wall_points ?sc)"
    and l: "length (polygons mesh) = 4"
    by simp_all
  have s4: "4 \<le> (of_int (assign 12 (segments options)) :: real)"
    using v by (simp add: fields_valid_def)
  have lt: "sweep_rotation options < pi * 2"
  proof (rule ccontr)
    assume "\<not> sweep_rotation options < pi * 2"
    then have "1 \<le> sweep_rotation options / (pi * 2)" by (simp add: field_simps)
    with s4 have "4 * 1 \<le> of_int (assign 12 (segments options))
                              * (sweep_rotation options / (pi * 2))"
      by (intro mult_mono) simp_all
    with assms(3) show False by linarith
  qed
  note f = sweep_scope_fields [of EPS options]
  note p = sweep_point [OF h, of EPS]
  have SE: "?S \<noteq> ?E" using h by (simp add: f)
  have SP: "?S \<noteq> ?P00" "?S \<noteq> ?P10" "?S \<noteq> ?P01" "?S \<noteq> ?P11"
    using cos_sin_not_both_zero [OF r(1,2)] cos_sin_not_both_zero [OF r(3,4)]
    by (auto simp: f p)
  have PE: "?P00 \<noteq> ?E"
    using cos_sin_not_both_zero [OF r(1,2)] by (auto simp: f p)
  have PP: "?P00 \<noteq> ?P01"
    using cos_sin_shift [OF sweep_rotation_pos [OF v] lt, of "sweep_start options"] r(1,2)
    by (auto simp: p)
  have e: "mesh_edges mesh =
     [(vec3_add ?S ?c, vec3_add ?E ?c), (vec3_add ?E ?c, vec3_add ?P00 ?c),
      (vec3_add ?P00 ?c, vec3_add ?S ?c),
      (vec3_add ?P00 ?c, vec3_add ?E ?c), (vec3_add ?E ?c, vec3_add ?P10 ?c),
      (vec3_add ?P10 ?c, vec3_add ?P00 ?c),
      (vec3_add ?S ?c, vec3_add ?P01 ?c), (vec3_add ?P01 ?c, vec3_add ?E ?c),
      (vec3_add ?E ?c, vec3_add ?S ?c),
      (vec3_add ?P01 ?c, vec3_add ?P11 ?c), (vec3_add ?P11 ?c, vec3_add ?E ?c),
      (vec3_add ?E ?c, vec3_add ?P01 ?c)]"
    unfolding mesh_edges_vertices m by (simp add: centered_def wall_points_def f)
  have i: "(vec3_add ?P00 ?c, vec3_add ?S ?c) \<in> set (mesh_edges mesh)"
    unfolding e by simp
  have n: "(vec3_add ?S ?c, vec3_add ?P00 ?c) \<notin> set (mesh_edges mesh)"
    unfolding e using SE SP PE PP
    by (simp add: vec3_add_right_cancel del: vec3_add.simps)
  from n have "count_list (mesh_edges mesh) (vec3_add ?S ?c, vec3_add ?P00 ?c) = 0"
    by (simp add: count_list_0_iff)
  then have "\<not> (case (vec3_add ?P00 ?c, vec3_add ?S ?c) of
              (a, b) \<Rightarrow> count_list (mesh_edges mesh) (a, b) = 1
                      \<and> count_list (mesh_edges mesh) (b, a) = 1)"
    by simp
  with i have "\<not> closed_manifold mesh"
    unfolding closed_manifold_def list_all_iff by blast
  with l show ?thesis by simp
qed

theorem zero_slices_open_witness:
  "\<exists>mesh. cylinderElliptic (1 / 100000) \<lparr>center = None, segments = Some 4, height = None,
             startRadius = Some (1, 1), startAngle = None, endRadius = Some (1, 1),
             endAngle = Some (pi / 4)\<rparr>
           = Inr mesh
         \<and> length (polygons mesh) = 4
         \<and> \<not> closed_manifold mesh"
proof -
  let ?W = "\<lparr>center = None, segments = Some 4, height = None,
             startRadius = Some (1, 1), startAngle = None, endRadius = Some (1, 1),
             endAngle = Some (pi / 4)\<rparr> :: (real \<times> real) cylinder_options"
  from wedge_eval obtain mesh where
    m: "cylinderElliptic (1 / 100000) ?W = Inr mesh"
    by blast
  have z: "of_int (assign 12 (segments ?W)) * (sweep_rotation ?W / (pi * 2)) < 1"
    by (simp add: wedge_sweep)
  have "(0::real) < 1 / 100000" by simp
  from zero_slices_open [OF this m z]
  have "length (polygons mesh) = 4 \<and> \<not> closed_manifold mesh" .
  with m show ?thesis by blast
qed

subsection \<open>The walls at concrete sweeps\<close>

theorem sweep_end_walls_witness:
  "(\<exists>mesh sides w1 w2 w3 w4.
      cylinderElliptic (1 / 100000) \<lparr>center = None, segments = Some 4, height = None,
          startRadius = None, startAngle = None, endRadius = None, endAngle = Some pi\<rparr>
        = Inr mesh
      \<and> polygons mesh = sides @ [w1, w2, w3, w4]
      \<and> length sides = 6
      \<and> vertices w1 = [(0, 0, - 1), (0, 0, 1), (1, 0, - 1)]
      \<and> vertices w4 = [(- 1, 0, - 1), (- 1, 0, 1), (0, 0, 1)])
   \<and> (\<exists>mesh.
      cylinderElliptic (1 / 100000) \<lparr>center = Some (Array [0, 0, 0]), segments = Some 4,
          height = Some 2, startRadius = Some (1, 1), startAngle = Some 0,
          endRadius = Some (1, 1), endAngle = Some (pi * 2)\<rparr>
        = Inr mesh
      \<and> slice_loop (sweep_scope (1 / 100000) \<lparr>center = Some (Array [0, 0, 0]),
            segments = Some 4, height = Some 2, startRadius = Some (1, 1),
            startAngle = Some 0, endRadius = Some (1, 1), endAngle = Some (pi * 2)\<rparr>) 4 0 []
          = Inr (polygons mesh))"
proof -
  let ?H = "\<lparr>center = None, segments = Some 4, height = None,
          startRadius = None, startAngle = None, endRadius = None, endAngle = Some pi\<rparr>
          :: (real \<times> real) cylinder_options"
  let ?F = "\<lparr>center = Some (Array [0, 0, 0]), segments = Some 4,
          height = Some 2, startRadius = Some (1, 1), startAngle = Some 0,
          endRadius = Some (1, 1), endAngle = Some (pi * 2)\<rparr>
          :: (real \<times> real) cylinder_options"
  from halfcylinder_eval obtain mesh where
    m: "cylinderElliptic (1 / 100000) ?H = Inr mesh"
    and v: "map vertices (polygons mesh) = halfcylinder_points"
    by blast
  have ne: "sweep_start ?H \<noteq> sweep_end ?H"
    by (simp add: halfcylinder_sweep)
  from sweep_end_walls [OF m] ne obtain sides w1 w2 w3 w4 where
    p: "polygons mesh = sides @ [w1, w2, w3, w4]"
    by blast
  have "length (polygons mesh) = length (map vertices (polygons mesh))" by simp
  also have "\<dots> = 10" unfolding v by (simp add: halfcylinder_points_def)
  finally have l: "length sides = 6" unfolding p by simp
  have "drop 6 (map vertices (polygons mesh)) = drop 6 halfcylinder_points"
    unfolding v ..
  then have w: "vertices w1 = [(0, 0, - 1), (0, 0, 1), (1, 0, - 1)]"
    "vertices w4 = [(- 1, 0, - 1), (- 1, 0, 1), (0, 0, 1)]"
    unfolding p by (simp_all add: l halfcylinder_points_def drop_map)
  have half: "\<exists>mesh sides w1 w2 w3 w4.
      cylinderElliptic (1 / 100000) ?H = Inr mesh
      \<and> polygons mesh = sides @ [w1, w2, w3, w4]
      \<and> length sides = 6
      \<and> vertices w1 = [(0, 0, - 1), (0, 0, 1), (1, 0, - 1)]
      \<and> vertices w4 = [(- 1, 0, - 1), (- 1, 0, 1), (0, 0, 1)]"
    using m p l w by blast
  from cylinder4_eval [of "1 / 100000"] obtain mesh' where
    m': "cylinderElliptic (1 / 100000) ?F = Inr mesh'"
    unfolding cylinder4_options by auto
  have eq: "sweep_start ?F = sweep_end ?F"
    by (simp add: sweep_start_def sweep_end_def js_mod_self js_mod_def)
  from sweep_end_walls [OF m'] eq
  have "slice_loop (sweep_scope (1 / 100000) ?F) (sweep_slices ?F) 0 [] = Inr (polygons mesh')"
    by blast
  then have "slice_loop (sweep_scope (1 / 100000) ?F) 4 0 [] = Inr (polygons mesh')"
    by (simp add: cylinder4_sweep)
  with m' have full: "\<exists>mesh.
      cylinderElliptic (1 / 100000) ?F = Inr mesh
      \<and> slice_loop (sweep_scope (1 / 100000) ?F) 4 0 [] = Inr (polygons mesh)"
    by blast
  from half full show ?thesis by (rule conjI)
qed

theorem walls_coplanar_counterexample:
  "\<exists>mesh. cylinderElliptic (1 / 100000) \<lparr>center = None, segments = Some 4, height = None,
             startRadius = Some (2, 1), startAngle = None, endRadius = Some (1, 2),
             endAngle = Some (pi / 4)\<rparr>
           = Inr mesh
     \<and> sweep_start \<lparr>center = None, segments = Some 4, height = None,
             startRadius = Some (2, 1), startAngle = None, endRadius = Some (1, 2),
             endAngle = Some (pi / 4)\<rparr>
         \<noteq> sweep_end \<lparr>center = None, segments = Some 4, height = None,
             startRadius = Some (2, 1), startAngle = None, endRadius = Some (1, 2),
             endAngle = Some (pi / 4)\<rparr>
     \<and> map vertices (polygons mesh) =
         [[(0, 0, - 1), (0, 0, 1), (2, 0, - 1)],
          [(2, 0, - 1), (0, 0, 1), (1, 0, 1)],
          [(0, 0, - 1), (sqrt 2, - (sqrt 2 / 2), - 1), (0, 0, 1)],
          [(sqrt 2, - (sqrt 2 / 2), - 1), (sqrt 2 / 2, - sqrt 2, 1), (0, 0, 1)]]
     \<and> \<not> angular_plane (sweep_scope (1 / 100000) \<lparr>center = None, segments = Some 4,
             height = None, startRadius = Some (2, 1), startAngle = None,
             endRadius = Some (1, 2), endAngle = Some (pi / 4)\<rparr>)
           (pi / 4) (sqrt 2, - (sqrt 2 / 2), - 1)
     \<and> \<not> angular_plane (sweep_scope (1 / 100000) \<lparr>center = None, segments = Some 4,
             height = None, startRadius = Some (2, 1), startAngle = None,
             endRadius = Some (1, 2), endAngle = Some (pi / 4)\<rparr>)
           0 (sqrt 2, - (sqrt 2 / 2), - 1)
     \<and> vec3_dot (vec3_subtract (0, 0, 1) (0, 0, - 1))
          (vec3_cross (vec3_subtract (sqrt 2, - (sqrt 2 / 2), - 1) (0, 0, - 1))
                      (vec3_subtract (sqrt 2 / 2, - sqrt 2, 1) (0, 0, - 1))) \<noteq> 0"
proof -
  let ?W = "\<lparr>center = None, segments = Some 4, height = None,
             startRadius = Some (2, 1), startAngle = None, endRadius = Some (1, 2),
             endAngle = Some (pi / 4)\<rparr> :: (real \<times> real) cylinder_options"
  from elliptic_wedge_eval obtain mesh where
    m: "cylinderElliptic (1 / 100000) ?W = Inr mesh"
    and v: "map vertices (polygons mesh) = elliptic_wedge_points"
    by blast
  have ne: "sweep_start ?W \<noteq> sweep_end ?W" by (simp add: wedge_sweep)
  have a: "\<not> angular_plane (sweep_scope (1 / 100000) ?W) (pi / 4) (sqrt 2, - (sqrt 2 / 2), - 1)"
    unfolding wedge_sweep
    by (simp add: angular_plane_def vec3_fromArray_def cos_45 sin_45)
  have b: "\<not> angular_plane (sweep_scope (1 / 100000) ?W) 0 (sqrt 2, - (sqrt 2 / 2), - 1)"
    unfolding wedge_sweep
    by (simp add: angular_plane_def vec3_fromArray_def)
  have c: "vec3_dot (vec3_subtract (0, 0, 1) (0, 0, - 1))
          (vec3_cross (vec3_subtract (sqrt 2, - (sqrt 2 / 2), - 1) (0, 0, - 1))
                      (vec3_subtract (sqrt 2 / 2, - sqrt 2, 1) (0, 0, - 1))) \<noteq> 0"
    by simp
  show ?thesis
    using m ne v a b c unfolding elliptic_wedge_points_def
    by (intro exI [of _ mesh]) (simp only: simp_thms)
qed

subsection \<open>The ellipsoid with 4 segments\<close>

lemma ellipsoid_eval:
  assumes "center_valid options" and "radius_valid options"
    and "4 \<le> assign 12 (segments options)"
    and "0 \<le> EPS"
    and "ellipsoid_patches (ellipsoid_scope EPS options) = L"
    and "list_all (first_triple_ok EPS) L"
  shows "\<exists>mesh. ellipsoid EPS options = Inr mesh \<and> map vertices (polygons mesh) = L"
proof -
  from polygons_fromPoints_ok [OF assms(4,6)] obtain ps
    where ps: "polygons_fromPoints EPS L = Inr ps" by auto
  have "ellipsoid EPS options = Inr (geom3_create ps)"
    unfolding ellipsoid_polygons [OF assms(1,2,3)] by (simp add: assms(5) ps)
  moreover have "map vertices (polygons (geom3_create ps)) = L"
    using polygons_fromPoints_vertices [OF ps] by (simp add: geom3_create_def)
  ultimately show ?thesis by blast
qed

lemma upt_Suc_numerals: "[Suc 0..<2] = [1]" "[Suc 0..<5] = [1, 2, 3, 4]"
  by (simp_all add: upt_rec)

lemma octahedron_scope:
  "ellipsoid_scope EPS \<lparr>center = None, segments = Some 4, radius = None, axes = None\<rparr>
   = \<lparr>es_EPS = EPS, es_center = [0, 0, 0], es_segments = 4, es_qsegments = 1,
      es_xvector = (1, 0, 0), es_yvector = (0, - 1, 0), es_zvector = (0, 0, 1)\<rparr>"
  by (simp add: ellipsoid_scope_def Let_def center_array_def Math_round_def vec3_unit_def
      vec3_length_def)

lemma octahedron_eval:
  "\<exists>mesh. ellipsoid (1 / 100000)
             \<lparr>center = None, segments = Some 4, radius = None, axes = None\<rparr> = Inr mesh
         \<and> map vertices (polygons mesh) = octahedron_points"
proof (rule ellipsoid_eval)
  let ?O = "\<lparr>center = None, segments = Some 4, radius = None :: jsvalue option, axes = None\<rparr>"
  show "center_valid ?O" by (simp add: center_valid_def center_array_def)
  show "radius_valid ?O" by (simp add: radius_valid_def)
  show "4 \<le> assign 12 (segments ?O)" by simp
  show "(0::real) \<le> 1 / 100000" by simp
  show "ellipsoid_patches (ellipsoid_scope (1 / 100000) ?O) = octahedron_points"
    unfolding octahedron_scope
    by (simp add: upt_Suc_numerals ellipsoid_patches_def cell_patches_def cell_corners_def
        corner_def pitch_at_def cylinderpoint_at_def Let_def vec3_fromArray_def trig_extra
        octahedron_points_def)
  show "list_all (first_triple_ok (1 / 100000)) octahedron_points"
    by (simp add: octahedron_points_def first_triple_ok_def)
qed


subsection \<open>Closed meshes at concrete configurations\<close>

lemma closed_manifold_points: "closed_manifold g = points_closed (map vertices (polygons g))"
  by (simp add: closed_manifold_def points_closed_def mesh_edges_vertices Let_def)

lemma cylinder4_points_closed: "points_closed cylinder4_points"
  by (simp add: points_closed_def cylinder4_points_def)

lemma halfcylinder_points_closed: "points_closed halfcylinder_points"
  by (simp add: points_closed_def halfcylinder_points_def)

lemma octahedron_points_closed: "points_closed octahedron_points"
  by (simp add: points_closed_def octahedron_points_def)

lemma cylinder4_closed:
  "\<exists>mesh. cylinder (1 / 100000) \<lparr>center = None, segments = Some 4, height = Some 2,
             startRadius = Some 1, startAngle = None, endRadius = Some 1, endAngle = None\<rparr>
           = Inr mesh
         \<and> closed_manifold mesh"
  using cylinder4_eval [of "1 / 100000"] cylinder4_points_closed
  by (auto simp: closed_manifold_points)

lemma halfcylinder_closed:
  "\<exists>mesh. cylinderElliptic (1 / 100000) \<lparr>center = None, segments = Some 4, height = None,
             startRadius = None, startAngle = None, endRadius = None, endAngle = Some pi\<rparr>
           = Inr mesh
         \<and> closed_manifold mesh"
  using halfcylinder_eval halfcylinder_points_closed
  by (auto simp: closed_manifold_points)

lemma octahedron_closed:
  "\<exists>mesh. ellipsoid (1 / 100000)
             \<lparr>center = None, segments = Some 4, radius = None, axes = None\<rparr> = Inr mesh
         \<and> closed_manifold mesh"
  using octahedron_eval octahedron_points_closed
  by (auto simp: closed_manifold_points)

subsection \<open>Determinism\<close>








end
